theory Spec2Isabelle
  imports Main "HOL-Library.AList"
begin

section \<open>Conventions\<close>

text \<open>
  This theory embeds the document layer (\<^verbatim>\<open>src/Python/cdrapi/docs.py\<close>) and the SQL query
  builder (\<^verbatim>\<open>src/Python/cdrdb2.py\<close>) of the CDR library.

  Python strings are \<^typ>\<open>string\<close>; a character stands for a code point below 256.
  An exception raised by the source is a value of type \<open>error\<close>; a function that can raise
  returns \<open>error + 'a\<close>, with \<open>Inl\<close> for the exception.

  \<^verbatim>\<open>docs.py\<close> is work in progress and does not parse as it stands. It is read as follows:
  \<^item> \<^verbatim>\<open>return self._x = e\<close> stores \<open>e\<close> in the attribute and returns it;
  \<^item> methods declared without \<^verbatim>\<open>self\<close> (\<^verbatim>\<open>lock\<close>, \<^verbatim>\<open>unlock\<close>) are methods of the object;
  \<^item> an unbound name is read as the attribute of the same name that is in scope
    (\<^verbatim>\<open>session\<close> as \<^verbatim>\<open>self.session\<close>, \<^verbatim>\<open>root\<close> as \<^verbatim>\<open>doc.root\<close>, \<^verbatim>\<open>self.user_id\<close> as the
    session's user).
  The control flow is taken as written.
\<close>

datatype error =
    DisallowedSqlKeyword      \<comment> \<open>"query contains disallowed sql keywords"\<close>
  | PlaceholderMismatch       \<comment> \<open>"wrong number of sql query placeholder values"\<close>
  | InvalidVersionSpec        \<comment> \<open>"invalid version ..." / "invalid version spec ..."\<close>
  | NotVersioned              \<comment> \<open>\<^verbatim>\<open>Doc.NOT_VERSIONED\<close>\<close>
  | NoPublishableVersion      \<comment> \<open>\<^verbatim>\<open>Doc.NO_PUBLISHABLE_VERSIONS\<close>\<close>
  | MissingDate               \<comment> \<open>"missing date for version specifier"\<close>
  | MissingLabel              \<comment> \<open>"missing token for version specifier"\<close>
  | UnrecognizedDate          \<comment> \<open>"unrecognized date/time format"\<close>
  | NoVersionBefore           \<comment> \<open>"no version before ..."\<close>
  | NoVersionLabeled          \<comment> \<open>"no version labeled ..."\<close>
  | Unauthorized              \<comment> \<open>"User not authorized to ..."\<close>
  | AlreadyLocked
  | NotLocked
  | CycleOrExcessiveDepth     \<comment> \<open>"term hierarchy depth exceeded at CDR()"\<close>
  | NoParentRef               \<comment> \<open>"No cdr:ref for parent of Term ..."\<close>
  | TypeError                 \<comment> \<open>an operand is \<^verbatim>\<open>None\<close>\<close>
  | DocumentError string      \<comment> \<open>any other failure to load a document\<close>
  | Deadlock                  \<comment> \<open>the thread blocks for ever on a lock it holds itself\<close>
  | VirtualTableWithoutAlias  \<comment> \<open>"Virtual tables must have an alias"\<close>
  | PlaceholdersInVirtualTable \<comment> \<open>"Placeholders not allowed in virtual table"\<close>
  | JoinWithoutAlias          \<comment> \<open>"resultset expression without alias"\<close>
  | PlaceholdersInJoin        \<comment> \<open>"Placeholders not allowed in joined resultset expression"\<close>
  | EmptyInList               \<comment> \<open>"'IN' test with no values"\<close>
  | UnexpectedSequence        \<comment> \<open>"Unexpected sequence of values"\<close>

section \<open>String helpers of the Python runtime\<close>

definition isspace :: "char \<Rightarrow> bool" where
  \<comment> \<open>What \<^verbatim>\<open>\s\<close> matches in a \<^verbatim>\<open>str\<close> pattern, among the code points below 256.\<close>
  "isspace c = (of_char c \<in> {9::nat, 10, 11, 12, 13, 28, 29, 30, 31, 32, 133, 160})"

definition lower_char :: "char \<Rightarrow> char" where
  "lower_char c =
     (let n = of_char c :: nat
      in if (65 \<le> n \<and> n \<le> 90) \<or> (192 \<le> n \<and> n \<le> 222 \<and> n \<noteq> 215)
         then char_of (n + 32) else c)"

definition lower :: "string \<Rightarrow> string" where
  "lower s = map lower_char s"

fun startswith :: "string \<Rightarrow> string \<Rightarrow> bool" where
  "startswith s [] = True"
| "startswith [] (p # ps) = False"
| "startswith (c # cs) (p # ps) = (c = p \<and> startswith cs ps)"

fun split_once :: "char \<Rightarrow> string \<Rightarrow> string \<Rightarrow> string list" where
  \<comment> \<open>\<^verbatim>\<open>s.split(sep, 1)\<close> for a one-character separator; the second argument collects the
      characters before the separator.\<close>
  "split_once sep acc [] = [acc]"
| "split_once sep acc (c # cs) =
     (if c = sep then [acc, cs] else split_once sep (acc @ [c]) cs)"

fun split_all :: "char \<Rightarrow> string \<Rightarrow> string \<Rightarrow> string list" where
  \<comment> \<open>\<^verbatim>\<open>s.split(sep)\<close> for a one-character separator.\<close>
  "split_all sep acc [] = [acc]"
| "split_all sep acc (c # cs) =
     (if c = sep then acc # split_all sep [] cs else split_all sep (acc @ [c]) cs)"

definition replace_char :: "char \<Rightarrow> string \<Rightarrow> string \<Rightarrow> string" where
  \<comment> \<open>\<^verbatim>\<open>s.replace(c, new)\<close> for a one-character \<open>c\<close>.\<close>
  "replace_char c new s = concat (map (\<lambda>x. if x = c then new else [x]) s)"

section \<open>The resolver's restricted SQL function\<close>

text \<open>
  \<^verbatim>\<open>Resolver.UNSAFE\<close> is compiled from two adjacent string literals, which Python
  concatenates: the pattern is
  \<^verbatim>\<open>insert\s|update\s|delete\s|create\s|alter\sexec[(\s]|execute[(\s]\<close>, compiled without
  flags. Every alternative is a fixed sequence of one-character matchers.
\<close>

datatype atom = Lit char | Space | ParenOrSpace

fun atom_matches :: "atom \<Rightarrow> char \<Rightarrow> bool" where
  "atom_matches (Lit a) c = (c = a)"
| "atom_matches Space c = isspace c"
| "atom_matches ParenOrSpace c = (c = CHR ''('' \<or> isspace c)"

fun match_here :: "atom list \<Rightarrow> string \<Rightarrow> bool" where
  "match_here [] s = True"
| "match_here (a # as) [] = False"
| "match_here (a # as) (c # cs) = (atom_matches a c \<and> match_here as cs)"

fun re_search :: "atom list list \<Rightarrow> string \<Rightarrow> bool" where
  \<comment> \<open>\<^verbatim>\<open>pattern.search(s)\<close>: some alternative matches at some position.\<close>
  "re_search alts [] = list_ex (\<lambda>p. match_here p []) alts"
| "re_search alts (c # cs) = (list_ex (\<lambda>p. match_here p (c # cs)) alts \<or> re_search alts cs)"

definition UNSAFE :: "atom list list" where
  "UNSAFE =
     [ map Lit ''insert'' @ [Space],
       map Lit ''update'' @ [Space],
       map Lit ''delete'' @ [Space],
       map Lit ''create'' @ [Space],
       map Lit ''alter'' @ [Space] @ map Lit ''exec'' @ [ParenOrSpace],
       map Lit ''execute'' @ [ParenOrSpace] ]"

definition run_sql_query :: "string \<Rightarrow> string \<Rightarrow> error + (string \<times> string list)" where
  \<comment> \<open>\<^verbatim>\<open>Resolver.run_sql_query\<close> up to the call of \<^verbatim>\<open>self.cursor.execute\<close>: the result is the
      statement and the values handed to the cursor. \<open>PLACEHOLDER\<close> is
      \<^verbatim>\<open>db.Query.PLACEHOLDER\<close>, a constant of a module that is not part of the sources.\<close>
  "run_sql_query PLACEHOLDER args =
     (let (query, vals) =
            (if CHR ''~'' \<in> set args
             then (case split_once CHR ''~'' [] args of
                     [q, v] \<Rightarrow> (q, split_all CHR ''~'' [] v)
                   | _ \<Rightarrow> (args, []))
             else (args, []))
      in if re_search UNSAFE query then Inl DisallowedSqlKeyword
         else if count_list query CHR ''?'' \<noteq> length vals then Inl PlaceholderMismatch
         else Inr (if PLACEHOLDER \<noteq> ''?'' then replace_char CHR ''?'' PLACEHOLDER query
                   else query, vals))"

subsection \<open>Facts about the pattern search\<close>

lemma match_here_Lit: "match_here (map Lit t @ rest) (t @ s) = match_here rest s"
  by (induction t) simp_all

lemma re_search_here: "list_ex (\<lambda>p. match_here p s) alts \<Longrightarrow> re_search alts s"
  by (cases s) simp_all

lemma re_search_append: "re_search alts s \<Longrightarrow> re_search alts (pre @ s)"
  by (induction pre) simp_all

lemma split_once_first:
  "sep \<notin> set q \<Longrightarrow> split_once sep acc (q @ sep # rest) = [acc @ q, rest]"
  by (induction q arbitrary: acc) auto

definition refused_tokens :: "(string \<times> atom) list" where
  \<comment> \<open>The five alternatives of \<open>UNSAFE\<close> that consist of one keyword and the character class
      after it.\<close>
  "refused_tokens =
     [(''insert'', Space), (''update'', Space), (''delete'', Space), (''create'', Space),
      (''execute'', ParenOrSpace)]"

lemma UNSAFE_token:
  assumes "(tok, cls) \<in> set refused_tokens" and "atom_matches cls w"
  shows "re_search UNSAFE (pre @ tok @ w # post)"
proof -
  have "map Lit tok @ [cls] \<in> set UNSAFE"
    using assms(1) by (auto simp: refused_tokens_def UNSAFE_def)
  moreover have "match_here (map Lit tok @ [cls]) (tok @ w # post)"
    using assms(2) by (simp add: match_here_Lit)
  ultimately have "list_ex (\<lambda>p. match_here p (tok @ w # post)) UNSAFE"
    unfolding list_ex_iff by blast
  then show ?thesis
    by (intro re_search_append re_search_here)
qed

text \<open>
  C1. The claim is that every query containing one of the tokens insert, update, delete,
  create, alter, exec( or execute( in any letter case is refused with
  \<open>DisallowedSqlKeyword\<close> before any SQL is executed. The pattern is matched case-sensitively:
  the query \<^verbatim>\<open>DELETE FROM x\<close> passes the check and is handed to the cursor unchanged.
\<close>

theorem run_sql_query_uppercase_delete_is_executed:
  "run_sql_query ''?'' ''DELETE FROM x'' \<noteq> Inl DisallowedSqlKeyword
   \<and> run_sql_query ''?'' ''DELETE FROM x'' = Inr (''DELETE FROM x'', [])"
  by (simp add: run_sql_query_def UNSAFE_def isspace_def)

text \<open>
  C1, as amended. The argument of the function is the query, optionally followed by
  \<^verbatim>\<open>~\<close> and the placeholder values. Whenever the query contains, in lower case, one of
  insert, update, delete or create followed by a whitespace character, or execute followed
  by an opening parenthesis or a whitespace character, the function fails with
  \<open>DisallowedSqlKeyword\<close>; nothing is handed to the cursor.
\<close>

theorem run_sql_query_refuses_lowercase_keyword:
  assumes "(tok, cls) \<in> set refused_tokens" and "atom_matches cls w"
    and "query = pre @ tok @ w # post" and "CHR ''~'' \<notin> set query"
    and "args = query \<or> args = query @ CHR ''~'' # rest"
  shows "run_sql_query PLACEHOLDER args = Inl DisallowedSqlKeyword"
proof -
  have unsafe: "re_search UNSAFE query"
    using assms(1,2,3) by (simp add: UNSAFE_token)
  from assms(5) show ?thesis
  proof
    assume "args = query"
    with assms(4) unsafe show ?thesis
      by (simp add: run_sql_query_def)
  next
    assume a: "args = query @ CHR ''~'' # rest"
    then have "split_once CHR ''~'' [] args = [query, rest]"
      using assms(4) split_once_first [of "CHR ''~''" query "[]" rest] by simp
    with a unsafe show ?thesis
      by (simp add: run_sql_query_def)
  qed
qed

theorem run_sql_query_refuses_lowercase_keyword_witness:
  "(''delete'', Space) \<in> set refused_tokens \<and> atom_matches Space CHR '' ''
   \<and> CHR ''~'' \<notin> set ''delete from x where i = ?''
   \<and> run_sql_query ''%s'' ''delete from x where i = ?~42'' = Inl DisallowedSqlKeyword"
  using run_sql_query_refuses_lowercase_keyword
          [of "''delete''" Space "CHR '' ''" "''delete from x where i = ?''" "[]"
              "''from x where i = ?''" "''delete from x where i = ?~42''" "''42''" "''%s''"]
  by (simp add: refused_tokens_def isspace_def)

text \<open>
  The two literals of the pattern are joined without \<open>|\<close>, so \<open>alter\<close> and \<open>exec(\<close> are
  refused only where one follows the other; each of them alone passes the check.
\<close>

lemma run_sql_query_alter_alone_is_executed:
  "run_sql_query ''?'' ''alter table x add c int'' = Inr (''alter table x add c int'', [])"
  "run_sql_query ''?'' ''exec(sp_who)'' = Inr (''exec(sp_who)'', [])"
  by (simp_all add: run_sql_query_def UNSAFE_def isspace_def)

section \<open>Documents and their versions\<close>

text \<open>
  The tables the document layer reads. A time stamp is an integer; a row of \<open>checkout\<close>
  is open while its \<open>dt_in\<close> is \<open>NULL\<close>.
\<close>

record doc_version_row =
  dv_id :: int
  dv_num :: int
  dv_dt :: int
  dv_publishable :: char

record checkout_row =
  co_id :: int
  co_usr :: int
  co_dt_out :: int
  co_dt_in :: "int option"

record database =
  doc_version :: "doc_version_row list"
  doc_version_label :: "(int \<times> int) list"  \<comment> \<open>columns \<open>document\<close>, \<open>label\<close>\<close>
  version_label :: "(int \<times> string) list"   \<comment> \<open>columns \<open>id\<close>, \<open>name\<close>\<close>
  checkout :: "checkout_row list"

fun sql_max :: "int list \<Rightarrow> int option" where
  \<comment> \<open>The aggregate \<^verbatim>\<open>MAX\<close>: \<open>NULL\<close> over no rows.\<close>
  "sql_max [] = None"
| "sql_max (x # xs) = Some (fold max xs x)"

definition fetchone_max :: "int list \<Rightarrow> int option option" where
  \<comment> \<open>\<^verbatim>\<open>query.execute(cursor).fetchone()\<close> for a query selecting \<^verbatim>\<open>MAX(num)\<close> without
      grouping: the result set has exactly one row, whose single column is \<open>NULL\<close> when no
      row qualifies. \<open>None\<close> would be the absence of a row.\<close>
  "fetchone_max nums = Some (sql_max nums)"

datatype version_opt =
    NoVersion             \<comment> \<open>the option is absent or \<^verbatim>\<open>None\<close>\<close>
  | IntVersion int
  | StrVersion string
  | OtherVersion          \<comment> \<open>a truthy object that is neither an integer nor a string\<close>

record Doc =
  doc_id :: int                              \<comment> \<open>\<^verbatim>\<open>self.id\<close>\<close>
  opt_version :: version_opt                 \<comment> \<open>\<^verbatim>\<open>opts.get("version")\<close>\<close>
  doctype :: string                          \<comment> \<open>\<^verbatim>\<open>opts["doctype"]\<close>\<close>
  user_id :: int                             \<comment> \<open>the account of the session\<close>
  can_do :: "string \<Rightarrow> string \<Rightarrow> bool"         \<comment> \<open>\<^verbatim>\<open>session.can_do(action, doctype)\<close>\<close>
  cached_version :: "int option option"      \<comment> \<open>the attribute \<^verbatim>\<open>_version\<close>, when set\<close>
  cached_last_version :: "int option option" \<comment> \<open>the attribute \<^verbatim>\<open>_last_version\<close>, when set\<close>

definition truthy :: "int option \<Rightarrow> bool" where
  \<comment> \<open>Python's truth value of an integer or \<^verbatim>\<open>None\<close>.\<close>
  "truthy v = (case v of None \<Rightarrow> False | Some n \<Rightarrow> n \<noteq> 0)"

definition last_version :: "database \<Rightarrow> Doc \<Rightarrow> int option \<times> Doc" where
  "last_version db d =
     (case cached_last_version d of
        Some v \<Rightarrow> (v, d)
      | None \<Rightarrow>
          if doc_id d = 0 then (None, d\<lparr>cached_last_version := Some None\<rparr>)
          else (let row = fetchone_max [dv_num r. r \<leftarrow> doc_version db, dv_id r = doc_id d];
                    v = (case row of Some c \<Rightarrow> c | None \<Rightarrow> None)
                in (v, d\<lparr>cached_last_version := Some v\<rparr>)))"

definition last_publishable_version :: "database \<Rightarrow> Doc \<Rightarrow> int option" where
  "last_publishable_version db d =
     (if doc_id d = 0 then None
      else (case fetchone_max [dv_num r. r \<leftarrow> doc_version db,
                                 dv_id r = doc_id d \<and> dv_publishable r = CHR ''Y''] of
              Some c \<Rightarrow> c
            | None \<Rightarrow> None))"

definition get_version_before ::
  "(string \<Rightarrow> int option) \<Rightarrow> database \<Rightarrow> Doc \<Rightarrow> string \<Rightarrow> bool option \<Rightarrow> error + int option" where
  \<comment> \<open>\<open>parse\<close> is \<^verbatim>\<open>dateutil.parser.parse\<close>, \<open>None\<close> when it raises.\<close>
  "get_version_before parse db d before publishable =
     (case parse before of
        None \<Rightarrow> Inl UnrecognizedDate
      | Some when \<Rightarrow>
          (case fetchone_max
                  [dv_num r. r \<leftarrow> doc_version db,
                     dv_id r = doc_id d \<and> dv_dt r < when \<and>
                     (case publishable of
                        Some True \<Rightarrow> dv_publishable r = CHR ''Y''
                      | Some False \<Rightarrow> dv_publishable r = CHR ''N''
                      | None \<Rightarrow> True)] of
             None \<Rightarrow> Inl NoVersionBefore
           | Some c \<Rightarrow> Inr c))"

definition get_labeled_version :: "database \<Rightarrow> Doc \<Rightarrow> string \<Rightarrow> error + int option" where
  "get_labeled_version db d label =
     (case fetchone_max
             [dv_num v. v \<leftarrow> doc_version db, dl \<leftarrow> doc_version_label db,
                l \<leftarrow> version_label db,
                fst dl = dv_id v \<and> fst l = snd dl \<and> dv_id v = doc_id d \<and> snd l = label] of
        None \<Rightarrow> Inl NoVersionLabeled
      | Some c \<Rightarrow> Inr c)"

definition store_version :: "Doc \<Rightarrow> int option \<Rightarrow> (error + int option) \<times> Doc" where
  \<comment> \<open>\<^verbatim>\<open>return self._version = v\<close>\<close>
  "store_version d v = (Inr v, d\<lparr>cached_version := Some v\<rparr>)"

definition Doc_version ::
  "(string \<Rightarrow> int option) \<Rightarrow> (string \<Rightarrow> int option) \<Rightarrow> database \<Rightarrow> Doc
     \<Rightarrow> (error + int option) \<times> Doc" where
  \<comment> \<open>The property \<^verbatim>\<open>Doc.version\<close>. \<open>py_int\<close> is Python's \<^verbatim>\<open>int()\<close> on a string, \<open>None\<close>
      when it raises.\<close>
  "Doc_version parse py_int db d =
     (case cached_version d of
        Some v \<Rightarrow> (Inr v, d)
      | None \<Rightarrow>
          if doc_id d = 0 then store_version d None
          else (case opt_version d of
             NoVersion \<Rightarrow> store_version d None
           | IntVersion n \<Rightarrow>
               if n = 0 then store_version d None
               else store_version d (if n > 0 then Some n else None)
           | OtherVersion \<Rightarrow> (Inl InvalidVersionSpec, d)
           | StrVersion s \<Rightarrow>
               if s = [] then store_version d None
               else (let version = lower s in
                 if version = ''current'' then store_version d None
                 else if version = ''last'' \<or> version = ''lastversion'' then
                   (case last_version db d of (v, d') \<Rightarrow>
                      if \<not> truthy v then (Inl NotVersioned, d') else store_version d' v)
                 else if startswith version ''lastp'' then
                   (let v = last_publishable_version db d in
                      if \<not> truthy v then (Inl NoPublishableVersion, d) else store_version d v)
                 else if startswith version ''before '' then
                   (case split_once CHR '' '' [] version of
                      [t0, t1] \<Rightarrow>
                        (case get_version_before parse db d t1 None of
                           Inl e \<Rightarrow> (Inl e, d)
                         | Inr v \<Rightarrow> store_version d v)
                    | _ \<Rightarrow> (Inl MissingDate, d))
                 else if startswith version ''label '' then
                   (case split_once CHR '' '' [] version of
                      [t0, t1] \<Rightarrow>
                        (case get_labeled_version db d t1 of
                           Inl e \<Rightarrow> (Inl e, d)
                         | Inr v \<Rightarrow> store_version d v)
                    | _ \<Rightarrow> (Inl MissingLabel, d))
                 else (case py_int version of
                         Some n \<Rightarrow> store_version d (Some n)
                       | None \<Rightarrow> (Inl InvalidVersionSpec, d)))))"

subsection \<open>Locking\<close>

record lock_opts =
  opt_force :: bool
  opt_abandon :: bool

definition open_checkout :: "database \<Rightarrow> int \<Rightarrow> checkout_row option" where
  \<comment> \<open>\<^verbatim>\<open>fetchone()\<close> of the open rows of \<open>checkout\<close> for the document.\<close>
  "open_checkout db i = find (\<lambda>r. co_id r = i \<and> co_dt_in r = None) (checkout db)"

definition unlock :: "database \<Rightarrow> Doc \<Rightarrow> lock_opts \<Rightarrow> error + database" where
  \<comment> \<open>The body of \<^verbatim>\<open>Doc.unlock\<close> is its docstring alone: the method returns without reading
      or writing anything.\<close>
  "unlock db d opts = Inr db"

definition lock :: "database \<Rightarrow> Doc \<Rightarrow> lock_opts \<Rightarrow> error + database" where
  \<comment> \<open>\<^verbatim>\<open>Doc.lock\<close>: the method ends after the forced unlock; no branch writes to \<open>checkout\<close>.\<close>
  "lock db d opts =
     (if \<not> can_do d ''MODIFY DOCUMENT'' (doctype d) then Inl Unauthorized
      else (case open_checkout db (doc_id d) of
              Some row \<Rightarrow>
                if co_usr row = user_id d then Inr db
                else if opt_force opts then
                  (if \<not> can_do d ''FORCE CHECKOUT'' (doctype d) then Inl Unauthorized
                   else unlock db d \<lparr>opt_force = True, opt_abandon = True\<rparr>)
                else Inr db
            | None \<Rightarrow> Inr db))"

subsection \<open>Facts about version resolution\<close>

definition publishable_nums :: "database \<Rightarrow> int \<Rightarrow> int list" where
  \<comment> \<open>The version numbers of a document whose publishable flag is \<open>Y\<close>.\<close>
  "publishable_nums db i =
     [dv_num r. r \<leftarrow> doc_version db, dv_id r = i \<and> dv_publishable r = CHR ''Y'']"

lemma sql_max_Nil: "sql_max xs = None \<longleftrightarrow> xs = []"
  by (cases xs) simp_all

lemma sql_max_greatest:
  assumes "sql_max xs = Some m"
  shows "m \<in> set xs \<and> (\<forall>x \<in> set xs. x \<le> m)"
proof (cases xs)
  case Nil
  with assms show ?thesis by simp
next
  case (Cons y ys)
  have "fold max ys y = Max (set (y # ys))"
    by (rule Max.set_eq_fold [symmetric])
  with assms Cons have m: "m = Max (set xs)"
    by simp
  have "finite (set xs)" and "set xs \<noteq> {}"
    using Cons by simp_all
  then show ?thesis
    unfolding m using Max_in Max_ge by blast
qed

lemma last_publishable_version_eq:
  "doc_id d \<noteq> 0 \<Longrightarrow> last_publishable_version db d = sql_max (publishable_nums db (doc_id d))"
  by (simp add: last_publishable_version_def fetchone_max_def publishable_nums_def)

lemma startswith_lastp:
  assumes "startswith v ''lastp''"
  shows "v \<noteq> []" and "v \<noteq> ''current''" and "v \<noteq> ''last''" and "v \<noteq> ''lastversion''"
  using assms by auto

lemma Doc_version_lastp:
  assumes "doc_id d \<noteq> 0" and "cached_version d = None"
    and "opt_version d = StrVersion spec" and "startswith (lower spec) ''lastp''"
  shows "fst (Doc_version parse py_int db d) =
           (let v = sql_max (publishable_nums db (doc_id d))
            in if truthy v then Inr v else Inl NoPublishableVersion)"
proof -
  have "spec \<noteq> []"
    using assms(4) by (auto simp: lower_def)
  then show ?thesis
    using assms startswith_lastp [OF assms(4)]
    by (simp add: Doc_version_def last_publishable_version_eq store_version_def Let_def)
qed

lemma sql_max_eq:
  assumes "n \<in> set xs" and "\<forall>m \<in> set xs. m \<le> n"
  shows "sql_max xs = Some n"
proof (cases "sql_max xs")
  case None
  with assms(1) show ?thesis
    by (simp add: sql_max_Nil)
next
  case (Some m)
  from sql_max_greatest [OF Some] assms have "m = n"
    by (simp add: order_antisym)
  with Some show ?thesis by simp
qed

text \<open>
  C2. For a document (its id is not zero) whose version has not been resolved yet and whose
  version specifier, in lower case, starts with \<open>lastp\<close>, resolution either returns a
  version number that is flagged publishable and is the greatest such number of the
  document, or fails with \<open>NoPublishableVersion\<close>. It fails whenever the document has no
  publishable version, and it returns the greatest publishable version number whenever
  that number is not zero (version numbers start at 1).
\<close>

theorem version_lastp_is_greatest_publishable:
  assumes "doc_id d \<noteq> 0" and "cached_version d = None"
    and "opt_version d = StrVersion spec" and "startswith (lower spec) ''lastp''"
  shows "((\<exists>n. fst (Doc_version parse py_int db d) = Inr (Some n)
               \<and> n \<in> set (publishable_nums db (doc_id d))
               \<and> (\<forall>m \<in> set (publishable_nums db (doc_id d)). m \<le> n))
          \<or> fst (Doc_version parse py_int db d) = Inl NoPublishableVersion)
         \<and> (publishable_nums db (doc_id d) = []
              \<longrightarrow> fst (Doc_version parse py_int db d) = Inl NoPublishableVersion)
         \<and> (\<forall>n. n \<in> set (publishable_nums db (doc_id d))
                \<and> (\<forall>m \<in> set (publishable_nums db (doc_id d)). m \<le> n) \<and> n \<noteq> 0
              \<longrightarrow> fst (Doc_version parse py_int db d) = Inr (Some n))"
proof -
  note run = Doc_version_lastp [OF assms, of parse py_int db]
  have greatest: "\<forall>n. n \<in> set (publishable_nums db (doc_id d))
                \<and> (\<forall>m \<in> set (publishable_nums db (doc_id d)). m \<le> n) \<and> n \<noteq> 0
              \<longrightarrow> fst (Doc_version parse py_int db d) = Inr (Some n)"
    using run by (auto simp: truthy_def dest: sql_max_eq)
  show ?thesis
  proof (cases "sql_max (publishable_nums db (doc_id d))")
    case None
    then show ?thesis
      using run greatest by (simp add: truthy_def)
  next
    case (Some n)
    then have "publishable_nums db (doc_id d) \<noteq> []"
      using sql_max_Nil [of "publishable_nums db (doc_id d)"] by simp
    moreover note sql_max_greatest [OF Some]
    ultimately show ?thesis
      using Some run greatest by (simp add: Let_def)
  qed
qed

definition four_versions :: database where
  "four_versions =
     \<lparr>doc_version =
        [\<lparr>dv_id = 5, dv_num = 1, dv_dt = 100, dv_publishable = CHR ''Y''\<rparr>,
         \<lparr>dv_id = 5, dv_num = 2, dv_dt = 200, dv_publishable = CHR ''N''\<rparr>,
         \<lparr>dv_id = 5, dv_num = 3, dv_dt = 300, dv_publishable = CHR ''Y''\<rparr>,
         \<lparr>dv_id = 5, dv_num = 4, dv_dt = 400, dv_publishable = CHR ''N''\<rparr>],
      doc_version_label = [], version_label = [], checkout = []\<rparr>"

definition doc_five :: "string \<Rightarrow> Doc" where
  "doc_five spec =
     \<lparr>doc_id = 5, opt_version = StrVersion spec, doctype = ''Term'', user_id = 10,
      can_do = (\<lambda>action doctype. True), cached_version = None, cached_last_version = None\<rparr>"

theorem version_lastp_is_greatest_publishable_witness:
  "doc_id (doc_five ''LastPublishableVersion'') \<noteq> 0
   \<and> startswith (lower ''LastPublishableVersion'') ''lastp''
   \<and> publishable_nums four_versions 5 = [1, 3]
   \<and> fst (Doc_version (\<lambda>s. None) (\<lambda>s. None) four_versions (doc_five ''LastPublishableVersion''))
       = Inr (Some 3)"
proof -
  have run: "fst (Doc_version (\<lambda>s. None) (\<lambda>s. None) four_versions
                    (doc_five ''LastPublishableVersion'')) = Inr (Some 3)"
    by code_simp
  have pre: "doc_id (doc_five ''LastPublishableVersion'') \<noteq> 0"
      "cached_version (doc_five ''LastPublishableVersion'') = None"
      "opt_version (doc_five ''LastPublishableVersion'') = StrVersion ''LastPublishableVersion''"
      "startswith (lower ''LastPublishableVersion'') ''lastp''"
    by (simp_all add: doc_five_def) code_simp
  have nums: "publishable_nums four_versions 5 = [1, 3]"
    by (simp add: publishable_nums_def four_versions_def)
  from version_lastp_is_greatest_publishable [OF pre, of "\<lambda>s. None" "\<lambda>s. None" four_versions]
  show ?thesis
    using pre(1,4) nums run by simp
qed

lemma version_before_greatest:
  assumes "doc_id d \<noteq> 0" and "cached_version d = None"
    and "opt_version d = StrVersion spec" and "lower spec = ''before '' @ date"
    and "parse date = Some when"
    and "sql_max [dv_num r. r \<leftarrow> doc_version db, dv_id r = doc_id d \<and> dv_dt r < when] = Some n"
  shows "fst (Doc_version parse py_int db d) = Inr (Some n)"
proof -
  have spec: "spec \<noteq> []"
    using assms(4) by (auto simp: lower_def)
  show ?thesis
    using assms(1,2,3,5,6) spec
    by (simp add: Doc_version_def assms(4) get_version_before_def fetchone_max_def
        store_version_def)
qed

text \<open>
  C6. The claim is that a specifier \<open>before <date>\<close> fails when the document has no
  version created before the date. In \<open>four_versions\<close> every version of document 5 is
  created at time 100 or later; with a date that parses to time 50 the resolution returns
  \<open>None\<close>, the working copy, and raises nothing: the query selects \<^verbatim>\<open>MAX(num)\<close>, so
  \<^verbatim>\<open>fetchone()\<close> always yields a row and the test \<^verbatim>\<open>if not row\<close> never fires.
\<close>

theorem version_before_without_match_returns_None:
  "fst (Doc_version (\<lambda>s. if s = ''2000-01-01'' then Some 50 else None) (\<lambda>s. None)
          four_versions (doc_five ''before 2000-01-01'')) = Inr None"
  by code_simp

lemma lock_by_holder_is_noop:
  assumes "can_do d ''MODIFY DOCUMENT'' (doctype d)"
    and "open_checkout db (doc_id d) = Some row" and "co_usr row = user_id d"
  shows "lock db d opts = Inr db"
  using assms by (simp add: lock_def)

text \<open>
  C3. The claim is that \<open>lock()\<close> by a second user, without the force flag, fails with
  \<open>AlreadyLocked\<close> while the first user holds the lock. Document 5 is checked out by
  user 10; user 20, who may modify the document, calls \<open>lock()\<close> without force: the call
  returns normally and leaves the tables as they are.
\<close>

definition locked_by_10 :: database where
  "locked_by_10 =
     \<lparr>doc_version = [], doc_version_label = [], version_label = [],
      checkout = [\<lparr>co_id = 5, co_usr = 10, co_dt_out = 100, co_dt_in = None\<rparr>]\<rparr>"

theorem lock_by_other_user_without_force_returns:
  "lock locked_by_10 ((doc_five ''current'')\<lparr>user_id := 20\<rparr>)
        \<lparr>opt_force = False, opt_abandon = False\<rparr> = Inr locked_by_10"
  by (simp add: lock_def open_checkout_def locked_by_10_def doc_five_def)

text \<open>
  C8. The claim is that \<open>unlock()\<close> fails with \<open>NotLocked\<close> when the document has no open
  lock row, and with \<open>Unauthorized\<close> when another user holds the lock and the caller does
  not force the release. The method has no body: in both situations it returns normally.
\<close>

theorem unlock_returns_without_lock_and_for_other_user:
  "open_checkout four_versions 5 = None
   \<and> unlock four_versions (doc_five ''current'') \<lparr>opt_force = False, opt_abandon = False\<rparr>
       = Inr four_versions
   \<and> map_option co_usr (open_checkout locked_by_10 5) = Some 10
   \<and> unlock locked_by_10 ((doc_five ''current'')\<lparr>user_id := 20\<rparr>)
        \<lparr>opt_force = False, opt_abandon = False\<rparr> = Inr locked_by_10"
  by (simp add: unlock_def open_checkout_def four_versions_def locked_by_10_def)

section \<open>The term hierarchy and its cache\<close>

text \<open>
  \<^verbatim>\<open>Term.__init__\<close> reads the last publishable version of a Term document. What it reads is
  a \<open>term_doc\<close>; the loader gives \<open>Inl NoPublishableVersion\<close> for a document without a
  publishable version. A parent reference is the result of \<^verbatim>\<open>Doc.extract_id\<close> on the
  \<^verbatim>\<open>cdr:ref\<close> attribute, \<open>None\<close> where that call raises. The serialised XML of a term
  (\<^verbatim>\<open>xml\<close>, \<^verbatim>\<open>full_xml\<close>) is not part of the model: no branch depends on it.
\<close>

record term_doc =
  td_PreferredName :: "string option"
  td_PdqKey :: "string option"
  td_TermTypeNames :: "string list"
  td_ParentTermIds :: "int option list"

type_synonym loader = "int \<Rightarrow> error + term_doc"

datatype Term =
  Term (t_doc_id: int) (t_name: "string option") (t_pdq_key: "string option")
       (t_include: bool) (t_parents: "(int \<times> Term) list")

text \<open>
  The class attributes of \<^verbatim>\<open>Term\<close>. \<^verbatim>\<open>Term.lock\<close> is a \<^verbatim>\<open>threading.Lock\<close>, which is not
  re-entrant: \<open>lock_held\<close> says that the running thread holds it. Every reading of
  \<^verbatim>\<open>datetime.datetime.now()\<close> takes the next value of a clock, a function from the number
  of readings so far to the time in seconds.
\<close>

record cache =
  use_cache :: int
  terms :: "(int \<times> Term option) list"
  cache_started :: "int option"
  lock_held :: bool
  ticks :: nat

definition MAX_DEPTH :: nat where
  "MAX_DEPTH = 15"

definition MAX_CACHE_AGE :: int where
  \<comment> \<open>\<^verbatim>\<open>datetime.timedelta(1)\<close>: one day\<close>
  "MAX_CACHE_AGE = 86400"

definition initial_cache :: cache where
  "initial_cache = \<lparr>use_cache = 0, terms = [], cache_started = None, lock_held = False, ticks = 0\<rparr>"

definition set_cache :: "(nat \<Rightarrow> int) \<Rightarrow> bool \<Rightarrow> cache \<Rightarrow> (error + bool) \<times> cache" where
  "set_cache clock on st =
     (if lock_held st then (Inl Deadlock, st)
      else
        (let previous_state = (use_cache st > 0) in
         if on then
           (let st1 = st\<lparr>use_cache := use_cache st + 1\<rparr>;
                st2 = (if \<not> previous_state
                       then st1\<lparr>cache_started := Some (clock (ticks st1)), ticks := Suc (ticks st1)\<rparr>
                       else st1)
            in (Inr previous_state, st2))
         else
           (let st1 = st\<lparr>use_cache := use_cache st - 1\<rparr>;
                st2 = (if use_cache st1 < 0 then st1\<lparr>use_cache := 0\<rparr> else st1);
                st3 = (if use_cache st2 = 0 then st2\<lparr>terms := []\<rparr> else st2)
            in (Inr previous_state, st3))))"

function disable_all :: "(nat \<Rightarrow> int) \<Rightarrow> cache \<Rightarrow> (error + unit) \<times> cache" where
  \<comment> \<open>\<^verbatim>\<open>while cls.use_cache: cls.set_cache(False)\<close>\<close>
  "disable_all clock st =
     (if use_cache st \<noteq> 0 then
        (case set_cache clock False st of
           (Inl e, st') \<Rightarrow> (Inl e, st')
         | (Inr r, st') \<Rightarrow> disable_all clock st')
      else (Inr (), st))"
  by pat_completeness auto
termination
  by (relation "measure (\<lambda>(clock, st). nat \<bar>use_cache st\<bar>)")
     (auto simp: set_cache_def Let_def split: if_splits)

declare disable_all.simps [simp del]

definition release :: "error \<Rightarrow> cache \<Rightarrow> cache" where
  \<comment> \<open>An exception leaves a \<^verbatim>\<open>with cls.lock\<close> block and releases the lock; a thread that
      blocks inside the block keeps it.\<close>
  "release e st = (if e = Deadlock then st else st\<lparr>lock_held := False\<rparr>)"

definition excluded_type :: "string \<Rightarrow> bool" where
  "excluded_type t = (t = ''Header term'' \<or> t = ''Obsolete term'')"

definition no_name :: "string option \<Rightarrow> bool" where
  \<comment> \<open>\<^verbatim>\<open>not term.name\<close>\<close>
  "no_name n = (n = None \<or> n = Some [])"

definition expire_cache :: "(nat \<Rightarrow> int) \<Rightarrow> cache \<Rightarrow> (error + unit) \<times> cache" where
  \<comment> \<open>The first \<^verbatim>\<open>with cls.lock\<close> block of \<^verbatim>\<open>Term.get_term\<close>, up to the lookup in
      \<^verbatim>\<open>cls.terms\<close>; the lock is taken on entry.\<close>
  "expire_cache clock st =
     (if use_cache st \<noteq> 0 then
        (let now = clock (ticks st);
             st1 = st\<lparr>lock_held := True, ticks := Suc (ticks st)\<rparr>
         in case cache_started st1 of
              None \<Rightarrow> (Inl TypeError, st1)
            | Some started \<Rightarrow>
                if now - started > MAX_CACHE_AGE then disable_all clock st1
                else (Inr (), st1))
      else (Inr (), st\<lparr>lock_held := True\<rparr>))"

function get_term :: "loader \<Rightarrow> (nat \<Rightarrow> int) \<Rightarrow> int \<Rightarrow> nat \<Rightarrow> cache \<Rightarrow> (error + Term option) \<times> cache"
  and Term_init :: "loader \<Rightarrow> (nat \<Rightarrow> int) \<Rightarrow> int \<Rightarrow> nat \<Rightarrow> cache \<Rightarrow> (error + Term) \<times> cache"
  and get_parents ::
    "loader \<Rightarrow> (nat \<Rightarrow> int) \<Rightarrow> int option list \<Rightarrow> nat \<Rightarrow> (int \<times> Term) list \<Rightarrow> cache
       \<Rightarrow> error option \<times> (int \<times> Term) list \<times> cache"
where
  "get_term load clock tid depth st =
     (if depth > MAX_DEPTH then (Inl CycleOrExcessiveDepth, st)
      else if lock_held st then (Inl Deadlock, st)
      else
        (case expire_cache clock st of
           (Inl e, st2) \<Rightarrow> (Inl e, release e st2)
         | (Inr u, st2) \<Rightarrow>
             (case map_of (terms st2) tid of
                Some cached \<Rightarrow> (Inr cached, st2\<lparr>lock_held := False\<rparr>)
              | None \<Rightarrow>
                  (case Term_init load clock tid depth (st2\<lparr>lock_held := False\<rparr>) of
                     (Inl e, st3) \<Rightarrow> (Inl e, st3)
                   | (Inr t, st3) \<Rightarrow>
                       (let result = (if no_name (t_name t) then None else Some t) in
                        if lock_held st3 then (Inl Deadlock, st3)
                        else if use_cache st3 \<noteq> 0 \<and> map_of (terms st3) tid = None
                        then (Inr result, st3\<lparr>terms := AList.update tid result (terms st3)\<rparr>)
                        else (Inr result, st3))))))"
| "Term_init load clock tid depth st =
     (case load tid of
        Inl e \<Rightarrow>
          if e = NoPublishableVersion then (Inr (Term tid None None True []), st)
          else (Inl e, st)
      | Inr doc \<Rightarrow>
          (let incl = \<not> list_ex excluded_type (td_TermTypeNames doc)
           in case get_parents load clock (td_ParentTermIds doc) depth [] st of
                (Some e, ps, st') \<Rightarrow>
                  if e = NoPublishableVersion
                  then (Inr (Term tid (td_PreferredName doc) (td_PdqKey doc) incl ps), st')
                  else (Inl e, st')
              | (None, ps, st') \<Rightarrow>
                  (Inr (Term tid (td_PreferredName doc) (td_PdqKey doc) incl ps), st')))"
| "get_parents load clock [] depth ps st = (None, ps, st)"
| "get_parents load clock (r # refs) depth ps st =
     (case r of
        None \<Rightarrow> (Some NoParentRef, ps, st)
      | Some tid \<Rightarrow>
          if map_of ps tid \<noteq> None then get_parents load clock refs depth ps st
          else
            (case get_term load clock tid (depth + 1) st of
               (Inl e, st') \<Rightarrow> (Some e, ps, st')
             | (Inr None, st') \<Rightarrow> get_parents load clock refs depth ps st'
             | (Inr (Some parent), st') \<Rightarrow>
                 get_parents load clock refs depth
                   (AList.update tid parent
                      (fold (\<lambda>(k, v). AList.update k v) (t_parents parent) ps))
                   st'))"
  by pat_completeness auto
termination
  by (relation "inv_image (less_than <*lex*> less_than)
        (\<lambda>x. case x of
           Inl (load, clock, tid, depth, st) \<Rightarrow>
             (if depth > MAX_DEPTH then 0 else 3 * (16 - depth) + 3, 0)
         | Inr (Inl (load, clock, tid, depth, st)) \<Rightarrow> (3 * (16 - depth) + 2, 0)
         | Inr (Inr (load, clock, refs, depth, ps, st)) \<Rightarrow> (3 * (16 - depth) + 1, length refs))")
     (auto simp: MAX_DEPTH_def)

declare get_term.simps [simp del] Term_init.simps [simp del]

subsection \<open>The enable counter and the shared dictionary\<close>

definition cache_ok :: "cache \<Rightarrow> bool" where
  "cache_ok st = (0 \<le> use_cache st \<and> (use_cache st = 0 \<longrightarrow> terms st = []))"

lemma cache_ok_lock [simp]: "cache_ok (st\<lparr>lock_held := b\<rparr>) = cache_ok st"
  by (simp add: cache_ok_def)

lemma cache_ok_release [simp]: "cache_ok (release e st) = cache_ok st"
  by (simp add: release_def)

lemma set_cache_ok: "cache_ok st \<Longrightarrow> cache_ok (snd (set_cache clock on st))"
  by (auto simp: cache_ok_def set_cache_def Let_def)

lemma disable_all_ok: "cache_ok st \<Longrightarrow> cache_ok (snd (disable_all clock st))"
proof (induction clock st rule: disable_all.induct)
  case (1 clock st)
  show ?case
  proof (cases "use_cache st \<noteq> 0")
    case False
    with 1 show ?thesis by (simp add: disable_all.simps [of clock st])
  next
    case True
    obtain r st' where sc: "set_cache clock False st = (r, st')" by (cases "set_cache clock False st")
    have ok': "cache_ok st'" using set_cache_ok [OF "1.prems", of clock False] sc by simp
    show ?thesis
    proof (cases r)
      case (Inl e)
      with True sc ok' show ?thesis by (simp add: disable_all.simps [of clock st])
    next
      case (Inr b)
      with True sc ok' "1.IH" [OF True sc [symmetric] _ ok'] show ?thesis
        by (simp add: disable_all.simps [of clock st])
    qed
  qed
qed

lemma expire_cache_ok: "cache_ok st \<Longrightarrow> cache_ok (snd (expire_cache clock st))"
proof -
  assume ok: "cache_ok st"
  have "cache_ok (st\<lparr>lock_held := True, ticks := Suc (ticks st)\<rparr>)"
    using ok by (simp add: cache_ok_def)
  then show ?thesis
    using ok disable_all_ok [of "st\<lparr>lock_held := True, ticks := Suc (ticks st)\<rparr>" clock]
    by (simp add: expire_cache_def Let_def split: option.splits)
qed

lemma hierarchy_cache_ok:
  "cache_ok st \<Longrightarrow> cache_ok (snd (get_term load clock tid depth st))"
  "cache_ok st \<Longrightarrow> cache_ok (snd (Term_init load clock tid depth st))"
  "cache_ok st \<Longrightarrow> cache_ok (snd (snd (get_parents load clock refs depth ps st)))"
proof (induction load clock tid depth st and load clock tid depth st
         and load clock refs depth ps st rule: get_term_Term_init_get_parents.induct)
  case (1 load clock tid depth st)
  obtain x y where e: "expire_cache clock st = (x, y)" by (cases "expire_cache clock st")
  have y: "cache_ok y" using expire_cache_ok [OF "1.prems", of clock] e by simp
  show ?case
  proof (cases "depth > MAX_DEPTH \<or> lock_held st")
    case True
    with "1.prems" show ?thesis by (auto simp: get_term.simps [of load clock tid depth st])
  next
    case False
    show ?thesis
    proof (cases x)
      case (Inl err)
      with False e y show ?thesis by (simp add: get_term.simps [of load clock tid depth st])
    next
      case (Inr u)
      show ?thesis
      proof (cases "map_of (terms y) tid")
        case (Some c)
        with False e y Inr show ?thesis by (simp add: get_term.simps [of load clock tid depth st])
      next
        case None
        have "cache_ok (snd (Term_init load clock tid depth (y\<lparr>lock_held := False\<rparr>)))"
          using "1.IH" [OF _ _ e [symmetric] Inr None] False y by simp
        then show ?thesis
          using False e Inr None
          by (auto simp: get_term.simps [of load clock tid depth st] Let_def cache_ok_def
              split: prod.splits sum.splits)
      qed
    qed
  qed
next
  case (2 load clock tid depth st)
  show ?case
  proof (cases "load tid")
    case (Inl e)
    with "2.prems" show ?thesis
      by (simp add: Term_init.simps [of load clock tid depth st])
  next
    case (Inr doc)
    have "cache_ok (snd (snd (get_parents load clock (td_ParentTermIds doc) depth [] st)))"
      using "2.IH" [OF Inr refl "2.prems"] .
    then show ?thesis
      using Inr
      by (auto simp: Term_init.simps [of load clock tid depth st] Let_def
          split: prod.splits option.splits)
  qed
next
  case (3 load clock depth ps st)
  then show ?case by simp
next
  case (4 load clock r refs depth ps st)
  show ?case
  proof (cases r)
    case None
    with "4.prems" show ?thesis by simp
  next
    case (Some i)
    show ?thesis
    proof (cases "map_of ps i \<noteq> None")
      case True
      with Some "4.IH"(1) [OF Some True "4.prems"] show ?thesis by simp
    next
      case False
      obtain x y where g: "get_term load clock i (depth + 1) st = (x, y)"
        by (cases "get_term load clock i (depth + 1) st")
      have y: "cache_ok y" using "4.IH"(2) [OF Some False "4.prems"] g by simp
      show ?thesis
      proof (cases x)
        case (Inl e)
        with Some False g y show ?thesis by simp
      next
        case (Inr b)
        show ?thesis
        proof (cases b)
          case None
          with Some False g Inr "4.IH"(3) [OF Some False g [symmetric] Inr None y]
          show ?thesis by simp
        next
          case (Some t)
          with \<open>r = Some i\<close> False g Inr "4.IH"(4) [OF \<open>r = Some i\<close> False g [symmetric] Inr Some y]
          show ?thesis by simp
        qed
      qed
    qed
  qed
qed

subsection \<open>The depth limit on a chain of parents\<close>












definition chain_loader :: "int \<Rightarrow> loader" where
  \<comment> \<open>Documents \<open>1\<close> to \<open>n\<close>, each the only parent of the one before it.\<close>
  "chain_loader n i =
     (if 1 \<le> i \<and> i \<le> n then
        Inr \<lparr>td_PreferredName = Some ''name'', td_PdqKey = None, td_TermTypeNames = [],
             td_ParentTermIds = (if i < n then [Some (i + 1)] else [])\<rparr>
      else Inl NoPublishableVersion)"


text \<open>
  A sequence of calls on the class: \<^verbatim>\<open>Term.set_cache(on)\<close> and
  \<^verbatim>\<open>Term.get_term(session, id, depth)\<close>, each lookup with the documents as they are at
  that moment. A call that raises leaves the class attributes as they were when it raised.
\<close>

datatype cache_call = SetCache bool | GetTerm loader int nat

fun call :: "(nat \<Rightarrow> int) \<Rightarrow> cache_call \<Rightarrow> cache \<Rightarrow> cache" where
  "call clock (SetCache on) st = snd (set_cache clock on st)"
| "call clock (GetTerm load i depth) st = snd (get_term load clock i depth st)"

definition run_calls :: "(nat \<Rightarrow> int) \<Rightarrow> cache_call list \<Rightarrow> cache \<Rightarrow> cache" where
  "run_calls clock cs st = fold (call clock) cs st"

lemma call_ok: "cache_ok st \<Longrightarrow> cache_ok (call clock c st)"
  by (cases c) (simp_all add: set_cache_ok hierarchy_cache_ok(1))

lemma run_calls_ok: "cache_ok st \<Longrightarrow> cache_ok (run_calls clock cs st)"
  unfolding run_calls_def by (induction cs arbitrary: st) (simp_all add: call_ok)

lemma set_cache_result:
  "set_cache clock on st =
     (if lock_held st then (Inl Deadlock, st)
      else (Inr (0 < use_cache st), snd (set_cache clock on st)))"
  by (simp add: set_cache_def Let_def)

text \<open>
  When the cache is older than \<open>MAX_CACHE_AGE\<close>, \<open>get_term\<close> calls \<open>set_cache\<close> while it
  holds the class lock, which \<open>set_cache\<close> takes again: the call never returns, and the
  counter and the dictionary stay as they are.
\<close>

lemma get_term_blocks_when_cache_expired:
  "get_term (chain_loader 2) (\<lambda>n. 100000 * int n) 1 0
     (run_calls (\<lambda>n. 100000 * int n) [SetCache True] initial_cache)
   = (Inl Deadlock,
      \<lparr>use_cache = 1, terms = [], cache_started = Some 0, lock_held = True, ticks = 2\<rparr>)"
  by (simp add: run_calls_def set_cache_def initial_cache_def get_term.simps expire_cache_def
      disable_all.simps MAX_DEPTH_def MAX_CACHE_AGE_def release_def Let_def)

text \<open>
  C10. After every sequence of \<open>set_cache\<close> and \<open>get_term\<close> calls, started from the class as
  defined, the counter \<open>use_cache\<close> is not negative and the dictionary \<open>terms\<close> is empty
  when the counter is zero. A \<open>set_cache\<close> call made then either returns, and returns
  whether the counter was positive before the call, or never returns because the thread
  already blocks on the class lock. Disabling at zero leaves the counter at zero.
\<close>

theorem use_cache_never_negative:
  "cache_ok (run_calls clock cs initial_cache)
   \<and> (case set_cache clock on (run_calls clock cs initial_cache) of
         (Inr previous, st') \<Rightarrow>
            previous = (0 < use_cache (run_calls clock cs initial_cache)) \<and> cache_ok st'
       | (Inl e, st') \<Rightarrow> e = Deadlock \<and> lock_held (run_calls clock cs initial_cache))
   \<and> (use_cache st = 0 \<longrightarrow> use_cache (snd (set_cache clock False st)) = 0)"
proof -
  have init: "cache_ok initial_cache"
    by (simp add: cache_ok_def initial_cache_def)
  have ok: "cache_ok (run_calls clock cs initial_cache)"
    using init by (rule run_calls_ok)
  have zero: "use_cache st = 0 \<longrightarrow> use_cache (snd (set_cache clock False st)) = 0"
    by (simp add: set_cache_def Let_def)
  show ?thesis
    using ok zero set_cache_ok [OF ok, of clock on]
    by (subst set_cache_result) simp
qed

theorem use_cache_never_negative_witness:
  "cache_ok (run_calls (\<lambda>n. 0)
               [SetCache True, GetTerm (chain_loader 2) 1 0, SetCache False, SetCache False]
               initial_cache)
   \<and> use_cache (run_calls (\<lambda>n. 0)
                   [SetCache True, GetTerm (chain_loader 2) 1 0, SetCache False, SetCache False]
                   initial_cache) = 0
   \<and> map fst (terms (run_calls (\<lambda>n. 0) [SetCache True, GetTerm (chain_loader 2) 1 0]
                        initial_cache)) = [2, 1]
   \<and> set_cache (\<lambda>n. 0) True
        (run_calls (\<lambda>n. 0) [SetCache True, GetTerm (chain_loader 2) 1 0] initial_cache)
       = (Inr True,
          (run_calls (\<lambda>n. 0) [SetCache True, GetTerm (chain_loader 2) 1 0] initial_cache)
            \<lparr>use_cache := 2\<rparr>)"
proof -
  have two: "run_calls (\<lambda>n. 0) [SetCache True, GetTerm (chain_loader 2) 1 0] initial_cache =
      \<lparr>use_cache = 1,
       terms = [(2, Some (Term 2 (Some ''name'') None True [])),
                (1, Some (Term 1 (Some ''name'') None True
                            [(2, Term 2 (Some ''name'') None True [])]))],
       cache_started = Some 0, lock_held = False, ticks = 3\<rparr>"
    by (simp add: run_calls_def set_cache_def initial_cache_def get_term.simps Term_init.simps
        expire_cache_def chain_loader_def MAX_DEPTH_def MAX_CACHE_AGE_def no_name_def Let_def)
  have four: "run_calls (\<lambda>n. 0)
                [SetCache True, GetTerm (chain_loader 2) 1 0, SetCache False, SetCache False]
                initial_cache =
      \<lparr>use_cache = 0, terms = [], cache_started = Some 0, lock_held = False, ticks = 3\<rparr>"
    by (simp add: run_calls_def set_cache_def initial_cache_def get_term.simps Term_init.simps
        expire_cache_def chain_loader_def MAX_DEPTH_def MAX_CACHE_AGE_def no_name_def Let_def)
  from use_cache_never_negative
         [of "\<lambda>n. 0" "[SetCache True, GetTerm (chain_loader 2) 1 0, SetCache False, SetCache False]"
             True "initial_cache"]
  have "cache_ok (run_calls (\<lambda>n. 0)
               [SetCache True, GetTerm (chain_loader 2) 1 0, SetCache False, SetCache False]
               initial_cache)"
    by simp
  then show ?thesis
    by (simp add: four) (simp add: two set_cache_def)
qed

section \<open>The query builder\<close>

text \<open>
  \<^verbatim>\<open>cdrdb2.py\<close> is Python 2: a string is a byte string, \<^verbatim>\<open>upper()\<close> changes the ASCII
  letters only and \<^verbatim>\<open>splitlines()\<close> breaks at \<^verbatim>\<open>\n\<close>, \<^verbatim>\<open>\r\<close> and \<^verbatim>\<open>\r\n\<close>.
\<close>

definition upper_char :: "char \<Rightarrow> char" where
  "upper_char c =
     (let n = of_char c :: nat in if 97 \<le> n \<and> n \<le> 122 then char_of (n - 32) else c)"

definition upper :: "string \<Rightarrow> string" where
  "upper s = map upper_char s"

fun str_join :: "string \<Rightarrow> string list \<Rightarrow> string" where
  \<comment> \<open>\<^verbatim>\<open>sep.join(xs)\<close>\<close>
  "str_join sep [] = []"
| "str_join sep [x] = x"
| "str_join sep (x # y # ys) = x @ sep @ str_join sep (y # ys)"

fun splitlines :: "string \<Rightarrow> string \<Rightarrow> string list" where
  \<comment> \<open>\<^verbatim>\<open>s.splitlines()\<close>; the first argument collects the current line.\<close>
  "splitlines acc [] = (if acc = [] then [] else [acc])"
| "splitlines acc (c # cs) =
     (if c = CHR 0x0A then acc # splitlines [] cs
      else if c = CHR 0x0D then
        (case cs of
           [] \<Rightarrow> [acc]
         | d # ds \<Rightarrow> if d = CHR 0x0A then acc # splitlines [] ds else acc # splitlines [] cs)
      else splitlines (acc @ [c]) cs)"

fun digits :: "nat \<Rightarrow> string" where
  "digits n = (if n < 10 then [char_of (48 + n)] else digits (n div 10) @ [char_of (48 + n mod 10)])"

declare digits.simps [simp del]

definition format_d :: "int \<Rightarrow> string" where
  \<comment> \<open>\<^verbatim>\<open>"%d" % n\<close>\<close>
  "format_d n = (if n < 0 then CHR ''-'' # digits (nat (- n)) else digits (nat n))"

definition nonempty :: "string option \<Rightarrow> bool" where
  \<comment> \<open>The truth value of an attribute that holds a string or \<^verbatim>\<open>None\<close>.\<close>
  "nonempty s = (case s of None \<Rightarrow> False | Some t \<Rightarrow> t \<noteq> [])"

text \<open>
  A query object and what it refers to. A condition is a string of SQL, a
  \<^verbatim>\<open>Query.Condition\<close> or a \<^verbatim>\<open>Query.Or\<close>, whose arguments are conditions or sequences of
  conditions. The value of a \<^verbatim>\<open>Condition\<close> is one parameter, a list or tuple of parameters,
  or a nested query; a table is a name or a nested query. The fields of \<open>query\<close> are the
  attributes \<^verbatim>\<open>_table\<close>, \<^verbatim>\<open>_columns\<close>, \<^verbatim>\<open>_joins\<close>, \<^verbatim>\<open>_where\<close>, \<^verbatim>\<open>_group\<close>, \<^verbatim>\<open>_having\<close>,
  \<^verbatim>\<open>_order\<close>, \<^verbatim>\<open>_parms\<close>, \<^verbatim>\<open>_unions\<close>, \<^verbatim>\<open>_alias\<close>, \<^verbatim>\<open>_into\<close>, \<^verbatim>\<open>_limit\<close>, \<^verbatim>\<open>_unique\<close>,
  \<^verbatim>\<open>_str\<close> and \<^verbatim>\<open>_outer\<close>.
\<close>

datatype pyval = PInt int | PStr string | PNone

datatype cond =
    Sql string
  | Condition string cvalue string
  | Or "orarg list"
and orarg =
    One cond
  | Seq "cond list"
and cvalue =
    Single pyval
  | Many "pyval list"
  | Nested query
and table_ref =
    Named string
  | Virtual query
and join =
    Join (j_table: table_ref) (j_outer: bool) (j_conditions: "cond list")
and query =
    Query (q_table: table_ref) (q_columns: "string list") (q_joins: "join list")
          (q_where: "cond list") (q_group: "string list") (q_having: "cond list")
          (q_order: "string list") (q_parms: "pyval list") (q_unions: "query list")
          (q_alias: "string option") (q_into: "string option") (q_limit: "int option")
          (q_unique: bool) (q_str: "string option") (q_outer: bool)

definition align :: "nat \<Rightarrow> string \<Rightarrow> string \<Rightarrow> string" where
  \<comment> \<open>\<^verbatim>\<open>Query._align\<close> with \<^verbatim>\<open>self._indent = n\<close>; \<^verbatim>\<open>keyword[-0:]\<close> is the whole string.\<close>
  "align n keyword rest =
     (let k = replicate n CHR '' '' @ keyword
      in (if n = 0 then k else drop (length k - n) k) @ '' '' @ rest)"

definition indent :: "string \<Rightarrow> string" where
  \<comment> \<open>\<^verbatim>\<open>Query.indent(block)\<close> with \<^verbatim>\<open>n = 4\<close>\<close>
  "indent block =
     str_join [CHR 0x0A] (map (\<lambda>line. replicate 4 CHR '' '' @ line) (splitlines [] block))
     @ (if block \<noteq> [] \<and> last block = CHR 0x0A then [CHR 0x0A] else [])"

type_synonym emitted = "string list \<times> pyval list"

definition select_keywords :: "query \<Rightarrow> string" where
  "select_keywords q =
     ''SELECT'' @ (if q_unique q then '' DISTINCT'' else [])
       @ (case q_limit q of None \<Rightarrow> [] | Some n \<Rightarrow> '' TOP '' @ format_d n)"

definition widen :: "bool \<Rightarrow> string \<Rightarrow> nat \<Rightarrow> nat" where
  \<comment> \<open>One round of the loop that computes \<^verbatim>\<open>self._indent\<close>\<close>
  "widen attribute keywords n =
     (if attribute then (if int (length keywords) - int n > 0 then n + (length keywords - n) else n)
      else n)"

definition query_indent :: "query \<Rightarrow> nat" where
  "query_indent q =
     widen (q_group q \<noteq> []) ''GROUP BY''
       (widen (q_outer q) ''LEFT OUTER JOIN''
          (widen (q_order q \<noteq> []) ''ORDER BY'' (length (select_keywords q))))"

text \<open>
  \<^verbatim>\<open>Query.__str__\<close> and its helpers. The helpers append to the list \<^verbatim>\<open>query\<close> of lines and
  to \<^verbatim>\<open>self._parms\<close>: they take and return the pair of both. \<^verbatim>\<open>self._indent\<close> is their
  first argument. \<open>Query_str\<close> returns the string together with \<^verbatim>\<open>self._parms\<close> as it is
  after the call; a nested query is rendered through its own \<^verbatim>\<open>__str__\<close>, cache included.
  \<open>serialize_or_set\<close> and \<open>serialize_sequence\<close> are the outer and the inner loop of
  \<^verbatim>\<open>_serialize_or_set\<close>; \<^verbatim>\<open>close_paren\<close> is empty until the last condition of the set.
  \<open>serialize_conditions\<close>, \<open>serialize_joins\<close> and \<open>serialize_unions\<close> are the loops of
  \<^verbatim>\<open>__str__\<close> and \<^verbatim>\<open>_serialize_join\<close>.
\<close>

definition append_if :: "bool \<Rightarrow> string \<Rightarrow> emitted \<Rightarrow> emitted" where
  \<comment> \<open>\<^verbatim>\<open>if b: query.append(line)\<close>\<close>
  "append_if b line out = (if b then (fst out @ [line], snd out) else out)"

lemma size_query_fields:
  "size_list size (q_joins q) < size q"
  "size_list size (q_where q) < size q"
  "size_list size (q_having q) < size q"
  "size_list size (q_unions q) < size q"
  "q_table q = Virtual t \<Longrightarrow> size t < size q"
  by (cases q; simp)+

function Query_str :: "query \<Rightarrow> error + (string \<times> pyval list)"
  and serialize_condition ::
    "nat \<Rightarrow> string \<Rightarrow> cond \<Rightarrow> string \<Rightarrow> string \<Rightarrow> emitted \<Rightarrow> error + emitted"
  and serialize_or_set ::
    "nat \<Rightarrow> string \<Rightarrow> orarg list \<Rightarrow> string \<Rightarrow> string \<Rightarrow> emitted \<Rightarrow> error + emitted"
  and serialize_sequence ::
    "nat \<Rightarrow> string \<Rightarrow> cond list \<Rightarrow> string \<Rightarrow> bool \<Rightarrow> string \<Rightarrow> emitted \<Rightarrow> error + emitted"
  and serialize_conditions ::
    "nat \<Rightarrow> string \<Rightarrow> cond list \<Rightarrow> emitted \<Rightarrow> error + emitted"
  and serialize_join :: "nat \<Rightarrow> join \<Rightarrow> emitted \<Rightarrow> error + emitted"
  and serialize_joins :: "nat \<Rightarrow> join list \<Rightarrow> emitted \<Rightarrow> error + emitted"
  and serialize_unions :: "nat \<Rightarrow> query list \<Rightarrow> emitted \<Rightarrow> error + emitted"
where
  "Query_str q =
     (if nonempty (q_str q) then Inr (the (q_str q), q_parms q)
      else
        (let n = query_indent q;
             out1 = ([align n (select_keywords q) (str_join '', '' (q_columns q))], []);
             out2 = append_if (nonempty (q_into q)) (align n ''INTO'' (the (q_into q))) out1
         in case (case q_table q of
                    Virtual t \<Rightarrow>
                      if \<not> nonempty (q_alias t) then Inl VirtualTableWithoutAlias
                      else (case Query_str t of
                              Inl e \<Rightarrow> Inl e
                            | Inr (sql, parms) \<Rightarrow>
                                if parms \<noteq> [] then Inl PlaceholdersInVirtualTable
                                else Inr (fst out2 @ [align n ''FROM'' ''('',
                                                      indent (sql @ '') '' @ the (q_alias t))],
                                          snd out2))
                  | Named t \<Rightarrow> Inr (fst out2 @ [align n ''FROM'' t], snd out2)) of
              Inl e \<Rightarrow> Inl e
            | Inr out3 \<Rightarrow>
           (case serialize_joins n (q_joins q) out3 of
              Inl e \<Rightarrow> Inl e
            | Inr out4 \<Rightarrow>
           (case serialize_conditions n ''WHERE'' (q_where q) out4 of
              Inl e \<Rightarrow> Inl e
            | Inr out5 \<Rightarrow>
           (let out6 = append_if (q_group q \<noteq> [])
                         (align n ''GROUP BY'' (str_join '', '' (q_group q))) out5
            in case serialize_conditions n ''HAVING'' (q_having q) out6 of
              Inl e \<Rightarrow> Inl e
            | Inr out7 \<Rightarrow>
           (case serialize_unions n (q_unions q) out7 of
              Inl e \<Rightarrow> Inl e
            | Inr out8 \<Rightarrow>
           (let out9 = append_if (q_order q \<noteq> [])
                         (align n ''ORDER BY'' (str_join '', '' (q_order q))) out8
            in Inr (str_join [CHR 0x0A] (fst out9), snd out9))))))))"
| "serialize_condition n keyword (Or conditions) prefix suffix out =
     serialize_or_set n keyword conditions (''('' @ prefix) suffix out"
| "serialize_condition n keyword (Sql s) prefix suffix out =
     Inr (fst out @ [align n keyword (prefix @ s @ suffix)], snd out)"
| "serialize_condition n keyword (Condition column v test) prefix suffix out =
     (let tst = column @ '' '' @ prefix @ test in
      case v of
        Nested nested \<Rightarrow>
          (case Query_str nested of
             Inl e \<Rightarrow> Inl e
           | Inr (sql, parms) \<Rightarrow>
               (let al = (if nonempty (q_alias nested) then '' '' @ the (q_alias nested) else []);
                    serialized = sql @ '')'' @ al @ suffix
                in Inr (fst out @ [align n keyword (tst @ '' (''), indent serialized],
                        snd out @ parms)))
      | Single x \<Rightarrow>
          if upper test = ''IN'' \<or> upper test = ''NOT IN'' then
            Inr (fst out @ [align n keyword (tst @ '' ('' @ str_join '', '' [''%s''] @ '')'' @ suffix)],
                 snd out @ [x])
          else Inr (fst out @ [align n keyword (tst @ '' %s'' @ suffix)], snd out @ [x])
      | Many xs \<Rightarrow>
          if upper test = ''IN'' \<or> upper test = ''NOT IN'' then
            (if xs = [] then Inl EmptyInList
             else Inr (fst out @ [align n keyword
                                    (tst @ '' ('' @ str_join '', '' (replicate (length xs) ''%s'')
                                       @ '')'' @ suffix)],
                       snd out @ xs))
          else Inl UnexpectedSequence)"
| "serialize_or_set n keyword [] open_paren suffix out = Inr out"
| "serialize_or_set n keyword (One c # rest) open_paren suffix out =
     (case serialize_condition n keyword c open_paren
             (if rest = [] then suffix @ '')'' else []) out of
        Inl e \<Rightarrow> Inl e
      | Inr out' \<Rightarrow> serialize_or_set n ''OR'' rest [] suffix out')"
| "serialize_or_set n keyword (Seq cs # rest) open_paren suffix out =
     (case serialize_sequence n keyword cs open_paren (rest = []) suffix out of
        Inl e \<Rightarrow> Inl e
      | Inr out' \<Rightarrow> serialize_or_set n ''OR'' rest [] suffix out')"
| "serialize_sequence n keyword [] open_paren last_or suffix out = Inr out"
| "serialize_sequence n keyword (c # cs) open_paren last_or suffix out =
     (case serialize_condition n keyword c open_paren
             (if last_or \<and> cs = [] then suffix @ '')'' else []) out of
        Inl e \<Rightarrow> Inl e
      | Inr out' \<Rightarrow> serialize_sequence n ''AND'' cs [] last_or suffix out')"
| "serialize_conditions n keyword [] out = Inr out"
| "serialize_conditions n keyword (c # cs) out =
     (case serialize_condition n keyword c [] [] out of
        Inl e \<Rightarrow> Inl e
      | Inr out' \<Rightarrow> serialize_conditions n ''AND'' cs out')"
| "serialize_join n (Join table outer conditions) out =
     (let keyword = (if outer then ''LEFT OUTER JOIN'' else ''JOIN'') in
      case (case table of
              Virtual t \<Rightarrow>
                if \<not> nonempty (q_alias t) then Inl JoinWithoutAlias
                else (case (if q_str t = None
                            then (case Query_str t of
                                    Inl e \<Rightarrow> Inl e
                                  | Inr (sql, parms) \<Rightarrow> Inr parms)
                            else Inr (q_parms t)) of
                        Inl e \<Rightarrow> Inl e
                      | Inr parms \<Rightarrow>
                          if parms \<noteq> [] then Inl PlaceholdersInJoin
                          else (case Query_str t of
                                  Inl e \<Rightarrow> Inl e
                                | Inr (sql, parms') \<Rightarrow>
                                    Inr (fst out @ [align n keyword ''('',
                                                    indent (sql @ '') '' @ the (q_alias t))],
                                         snd out)))
            | Named t \<Rightarrow> Inr (fst out @ [align n keyword t], snd out)) of
        Inl e \<Rightarrow> Inl e
      | Inr out' \<Rightarrow> serialize_conditions n ''ON'' conditions out')"
| "serialize_joins n [] out = Inr out"
| "serialize_joins n (j # js) out =
     (case serialize_join n j out of
        Inl e \<Rightarrow> Inl e
      | Inr out' \<Rightarrow> serialize_joins n js out')"
| "serialize_unions n [] out = Inr out"
| "serialize_unions n (u # us) out =
     (case Query_str u of
        Inl e \<Rightarrow> Inl e
      | Inr (sql, parms) \<Rightarrow> serialize_unions n us (fst out @ [align n ''UNION'' [], sql], snd out))"
  by pat_completeness auto
termination
  by (relation "measure (\<lambda>x. case x of
         Inl (Inl (Inl q)) \<Rightarrow> size q
       | Inl (Inl (Inr (n, k, c, p, s, out))) \<Rightarrow> size c
       | Inl (Inr (Inl (n, k, cs, p, s, out))) \<Rightarrow> size_list size cs
       | Inl (Inr (Inr (n, k, cs, p, l, s, out))) \<Rightarrow> size_list size cs
       | Inr (Inl (Inl (n, k, cs, out))) \<Rightarrow> size_list size cs
       | Inr (Inl (Inr (n, j, out))) \<Rightarrow> size j
       | Inr (Inr (Inl (n, js, out))) \<Rightarrow> size_list size js
       | Inr (Inr (Inr (n, us, out))) \<Rightarrow> size_list size us)")
     (auto simp: size_query_fields)

declare Query_str.simps [simp del]

subsection \<open>Serialisation only appends\<close>

definition appends :: "(emitted \<Rightarrow> error + emitted) \<Rightarrow> bool" where
  \<comment> \<open>The serialiser fails or not whatever has been emitted so far, and what it emits is
      added at the end.\<close>
  "appends f =
     (\<forall>out. f out = (case f ([], []) of
                       Inl e \<Rightarrow> Inl e
                     | Inr new \<Rightarrow> Inr (fst out @ fst new, snd out @ snd new)))"

lemma appends_emit: "appends (\<lambda>out. Inr (fst out @ ls, snd out @ ps))"
  by (simp add: appends_def)

lemma appends_emit_lines: "appends (\<lambda>out. Inr (fst out @ ls, snd out))"
  by (simp add: appends_def)

lemma appends_fail: "appends (\<lambda>out. Inl e)"
  by (simp add: appends_def)

lemma appends_skip: "appends Inr"
  by (simp add: appends_def)

lemma appendsD:
  "appends f \<Longrightarrow> f out = (case f ([], []) of
                              Inl e \<Rightarrow> Inl e
                            | Inr new \<Rightarrow> Inr (fst out @ fst new, snd out @ snd new))"
  unfolding appends_def by blast

lemma appends_then:
  assumes f: "appends f" and g: "\<And>out'. f out = Inr out' \<Longrightarrow> appends g"
  shows "appends (\<lambda>x. case f x of Inl e \<Rightarrow> Inl e | Inr x' \<Rightarrow> g x')"
proof (cases "f ([], [])")
  case (Inl e)
  have "f x = Inl e" for x
    using appendsD [OF f, of x] Inl by simp
  then show ?thesis
    by (simp add: appends_def)
next
  case (Inr new)
  have fx: "f x = Inr (fst x @ fst new, snd x @ snd new)" for x
    using appendsD [OF f, of x] Inr by simp
  then have "appends g"
    using g by blast
  then have gx: "\<And>x. g x = (case g ([], []) of
                                 Inl e \<Rightarrow> Inl e
                               | Inr new \<Rightarrow> Inr (fst x @ fst new, snd x @ snd new))"
    by (rule appendsD)
  show ?thesis
    unfolding appends_def
  proof
    fix x
    show "(case f x of Inl e \<Rightarrow> Inl e | Inr x' \<Rightarrow> g x') =
          (case (case f ([], []) of Inl e \<Rightarrow> Inl e | Inr x' \<Rightarrow> g x') of
             Inl e \<Rightarrow> Inl e
           | Inr new \<Rightarrow> Inr (fst x @ fst new, snd x @ snd new))"
      using gx [of "(fst x @ fst new, snd x @ snd new)"] gx [of new]
      by (cases "g ([], [])") (simp_all add: fx Inr)
  qed
qed

lemma serializers_append:
  fixes q :: query and out :: emitted
  shows "True"
  and
  "appends (serialize_condition n keyword c prefix suffix)"
  and "appends (serialize_or_set n keyword args open_paren suffix)"
  and "appends (serialize_sequence n keyword cs open_paren last_or suffix)"
  and "appends (serialize_conditions n keyword cs)"
  and "appends (serialize_join n j)"
  and "appends (serialize_joins n js)"
  and "appends (serialize_unions n us)"
proof (induct q and n keyword c prefix suffix out and n keyword args open_paren suffix out
         and n keyword cs open_paren last_or suffix out and n keyword cs out and n j out
         and n js out and n us out
       rule: Query_str_serialize_condition_serialize_or_set_serialize_sequence_serialize_conditions_serialize_join_serialize_joins_serialize_unions.induct)
  case (1 q)
  show ?case ..
next
  case (2 n keyword conditions prefix suffix out)
  have "serialize_condition n keyword (Or conditions) prefix suffix
          = serialize_or_set n keyword conditions (''('' @ prefix) suffix"
    by (rule ext) simp
  with 2 show ?case by simp
next
  case (3 n keyword s prefix suffix out)
  have "serialize_condition n keyword (Sql s) prefix suffix
          = (\<lambda>out. Inr (fst out @ [align n keyword (prefix @ s @ suffix)], snd out))"
    by (rule ext) simp
  then show ?case by (simp add: appends_emit_lines)
next
  case (4 n keyword column v test prefix suffix out)
  show ?case
    unfolding appends_def
    by (cases v) (auto simp: Let_def split: sum.splits)
next
  case (5 n keyword open_paren suffix out)
  have "serialize_or_set n keyword [] open_paren suffix = Inr"
    by (rule ext) simp
  then show ?case by (simp add: appends_skip)
next
  case (6 n keyword c rest open_paren suffix out)
  have "serialize_or_set n keyword (One c # rest) open_paren suffix
          = (\<lambda>x. case serialize_condition n keyword c open_paren
                         (if rest = [] then suffix @ '')'' else []) x of
                    Inl e \<Rightarrow> Inl e
                  | Inr x' \<Rightarrow> serialize_or_set n ''OR'' rest [] suffix x')"
    by (rule ext) simp
  then show ?case
    using appends_then [OF "6.hyps"(1) "6.hyps"(2), of out] by simp
next
  case (7 n keyword cs rest open_paren suffix out)
  have "serialize_or_set n keyword (Seq cs # rest) open_paren suffix
          = (\<lambda>x. case serialize_sequence n keyword cs open_paren (rest = []) suffix x of
                    Inl e \<Rightarrow> Inl e
                  | Inr x' \<Rightarrow> serialize_or_set n ''OR'' rest [] suffix x')"
    by (rule ext) simp
  then show ?case
    using appends_then [OF "7.hyps"(1) "7.hyps"(2), of out] by simp
next
  case (8 n keyword open_paren last_or suffix out)
  have "serialize_sequence n keyword [] open_paren last_or suffix = Inr"
    by (rule ext) simp
  then show ?case by (simp add: appends_skip)
next
  case (9 n keyword c cs open_paren last_or suffix out)
  have "serialize_sequence n keyword (c # cs) open_paren last_or suffix
          = (\<lambda>x. case serialize_condition n keyword c open_paren
                         (if last_or \<and> cs = [] then suffix @ '')'' else []) x of
                    Inl e \<Rightarrow> Inl e
                  | Inr x' \<Rightarrow> serialize_sequence n ''AND'' cs [] last_or suffix x')"
    by (rule ext) simp
  then show ?case
    using appends_then [OF "9.hyps"(1) "9.hyps"(2), of out] by simp
next
  case (10 n keyword out)
  have "serialize_conditions n keyword [] = Inr"
    by (rule ext) simp
  then show ?case by (simp add: appends_skip)
next
  case (11 n keyword c cs out)
  have "serialize_conditions n keyword (c # cs)
          = (\<lambda>x. case serialize_condition n keyword c [] [] x of
                    Inl e \<Rightarrow> Inl e
                  | Inr x' \<Rightarrow> serialize_conditions n ''AND'' cs x')"
    by (rule ext) simp
  then show ?case
    using appends_then [OF "11.hyps"(1) "11.hyps"(2), of out] by simp
next
  case (12 n table outer conditions out)
  define keyword where "keyword = (if outer then ''LEFT OUTER JOIN'' else ''JOIN'')"
  define target where "target = (\<lambda>x :: emitted.
      case table of
        Virtual t \<Rightarrow>
          if \<not> nonempty (q_alias t) then Inl JoinWithoutAlias
          else (case (if q_str t = None
                      then (case Query_str t of
                              Inl e \<Rightarrow> Inl e
                            | Inr (sql, parms) \<Rightarrow> Inr parms)
                      else Inr (q_parms t)) of
                  Inl e \<Rightarrow> Inl e
                | Inr parms \<Rightarrow>
                    if parms \<noteq> [] then Inl PlaceholdersInJoin
                    else (case Query_str t of
                            Inl e \<Rightarrow> Inl e
                          | Inr (sql, parms') \<Rightarrow>
                              Inr (fst x @ [align n keyword ''('',
                                            indent (sql @ '') '' @ the (q_alias t))],
                                   snd x)))
      | Named t \<Rightarrow> Inr (fst x @ [align n keyword t], snd x))"
  have target: "appends target"
    unfolding appends_def target_def
    by (auto split: table_ref.splits sum.splits)
  have eq: "serialize_join n (Join table outer conditions)
          = (\<lambda>x. case target x of
                    Inl e \<Rightarrow> Inl e
                  | Inr x' \<Rightarrow> serialize_conditions n ''ON'' conditions x')"
    unfolding target_def keyword_def by (rule ext) (simp add: Let_def)
  have "appends (serialize_conditions n ''ON'' conditions)" if "target out = Inr out'" for out'
    using "12.hyps"(3) [OF keyword_def] that
    unfolding target_def keyword_def by simp
  then show ?case
    unfolding eq using appends_then [OF target, of out] by blast
next
  case (13 n out)
  have "serialize_joins n [] = Inr"
    by (rule ext) simp
  then show ?case by (simp add: appends_skip)
next
  case (14 n j js out)
  have "serialize_joins n (j # js)
          = (\<lambda>x. case serialize_join n j x of
                    Inl e \<Rightarrow> Inl e
                  | Inr x' \<Rightarrow> serialize_joins n js x')"
    by (rule ext) simp
  then show ?case
    using appends_then [OF "14.hyps"(1) "14.hyps"(2), of out] by simp
next
  case (15 n out)
  have "serialize_unions n [] = Inr"
    by (rule ext) simp
  then show ?case by (simp add: appends_skip)
next
  case (16 n u us out)
  define block where "block = (\<lambda>x :: emitted.
      case Query_str u of
        Inl e \<Rightarrow> Inl e
      | Inr (sql, parms) \<Rightarrow> Inr (fst x @ [align n ''UNION'' [], sql], snd x))"
  have block: "appends block"
    unfolding appends_def block_def by (auto split: sum.splits)
  have eq: "serialize_unions n (u # us)
          = (\<lambda>x. case block x of
                    Inl e \<Rightarrow> Inl e
                  | Inr x' \<Rightarrow> serialize_unions n us x')"
    by (rule ext) (simp add: block_def split: sum.splits)
  have "appends (serialize_unions n us)" if "block out = Inr out'" for out'
    using "16.hyps"(2) that
    by (auto simp: block_def split: sum.splits)
  then show ?case
    unfolding eq using appends_then [OF block, of out] by blast
qed

subsection \<open>The clauses of a rendered query\<close>

definition emitted_by :: "(emitted \<Rightarrow> error + emitted) \<Rightarrow> emitted" where
  \<comment> \<open>What a serialiser emits by itself: the lines and parameters it adds to an empty
      rendering.\<close>
  "emitted_by f = (case f ([], []) of Inl e \<Rightarrow> ([], []) | Inr new \<Rightarrow> new)"

lemma appends_result:
  assumes "appends f" and "f out = Inr out'"
  shows "out' = (fst out @ fst (emitted_by f), snd out @ snd (emitted_by f))"
  using appendsD [OF assms(1), of out] assms(2)
  by (cases "f ([], [])") (simp_all add: emitted_by_def)

definition rendered :: "query \<Rightarrow> string" where
  \<comment> \<open>\<^verbatim>\<open>str(q)\<close> where it returns\<close>
  "rendered q = (case Query_str q of Inl e \<Rightarrow> [] | Inr (sql, parms) \<Rightarrow> sql)"

definition select_clause :: "query \<Rightarrow> string list" where
  "select_clause q =
     [align (query_indent q) (select_keywords q) (str_join '', '' (q_columns q))]"

definition into_clause :: "query \<Rightarrow> string list" where
  "into_clause q =
     (if nonempty (q_into q) then [align (query_indent q) ''INTO'' (the (q_into q))] else [])"

definition from_clause :: "query \<Rightarrow> string list" where
  "from_clause q =
     (case q_table q of
        Named t \<Rightarrow> [align (query_indent q) ''FROM'' t]
      | Virtual t \<Rightarrow>
          [align (query_indent q) ''FROM'' ''('', indent (rendered t @ '') '' @ the (q_alias t))])"

definition join_clauses :: "query \<Rightarrow> string list" where
  \<comment> \<open>one block of lines for each join, in the order of \<^verbatim>\<open>self._joins\<close>\<close>
  "join_clauses q =
     concat (map (\<lambda>j. fst (emitted_by (serialize_join (query_indent q) j))) (q_joins q))"

fun condition_clauses :: "nat \<Rightarrow> string \<Rightarrow> cond list \<Rightarrow> string list" where
  \<comment> \<open>the first condition under the given keyword, the others under \<open>AND\<close>\<close>
  "condition_clauses n keyword [] = []"
| "condition_clauses n keyword (c # cs) =
     fst (emitted_by (serialize_condition n keyword c [] [])) @ condition_clauses n ''AND'' cs"

definition group_clause :: "query \<Rightarrow> string list" where
  "group_clause q =
     (if q_group q \<noteq> []
      then [align (query_indent q) ''GROUP BY'' (str_join '', '' (q_group q))] else [])"

definition union_clauses :: "query \<Rightarrow> string list" where
  "union_clauses q =
     concat (map (\<lambda>u. [align (query_indent q) ''UNION'' [], rendered u]) (q_unions q))"

definition order_clause :: "query \<Rightarrow> string list" where
  "order_clause q =
     (if q_order q \<noteq> []
      then [align (query_indent q) ''ORDER BY'' (str_join '', '' (q_order q))] else [])"

definition clauses_in_order :: "query \<Rightarrow> string list" where
  \<comment> \<open>The fixed order of the specification.\<close>
  "clauses_in_order q =
     select_clause q @ into_clause q @ from_clause q @ join_clauses q
       @ condition_clauses (query_indent q) ''WHERE'' (q_where q)
       @ group_clause q
       @ condition_clauses (query_indent q) ''HAVING'' (q_having q)
       @ union_clauses q @ order_clause q"

lemma serialize_joins_lines:
  "serialize_joins n js out = Inr out' \<Longrightarrow>
     fst out' = fst out @ concat (map (\<lambda>j. fst (emitted_by (serialize_join n j))) js)"
proof (induction js arbitrary: out)
  case Nil
  then show ?case by simp
next
  case (Cons j js)
  then obtain mid where mid: "serialize_join n j out = Inr mid"
    and rest: "serialize_joins n js mid = Inr out'"
    by (auto split: sum.splits)
  from appends_result [OF serializers_append(6) mid] Cons.IH [OF rest]
  show ?case by simp
qed

lemma serialize_conditions_lines:
  "serialize_conditions n keyword cs out = Inr out' \<Longrightarrow>
     fst out' = fst out @ condition_clauses n keyword cs"
proof (induction cs arbitrary: out keyword)
  case Nil
  then show ?case by simp
next
  case (Cons c cs)
  then obtain mid where mid: "serialize_condition n keyword c [] [] out = Inr mid"
    and rest: "serialize_conditions n ''AND'' cs mid = Inr out'"
    by (auto split: sum.splits)
  from appends_result [OF serializers_append(2) mid] Cons.IH [OF rest]
  show ?case by simp
qed

lemma serialize_unions_lines:
  "serialize_unions n us out = Inr out' \<Longrightarrow>
     fst out' = fst out @ concat (map (\<lambda>u. [align n ''UNION'' [], rendered u]) us)"
proof (induction us arbitrary: out)
  case Nil
  then show ?case by simp
next
  case (Cons u us)
  then obtain sql parms where u: "Query_str u = Inr (sql, parms)"
    and rest: "serialize_unions n us (fst out @ [align n ''UNION'' [], sql], snd out) = Inr out'"
    by (auto split: sum.splits)
  from Cons.IH [OF rest] u show ?case
    by (simp add: rendered_def)
qed

lemma append_if_lines:
  "fst (append_if b line out) = fst out @ (if b then [line] else [])"
  "snd (append_if b line out) = snd out"
  by (simp_all add: append_if_def)

lemma Query_str_stages:
  assumes "\<not> nonempty (q_str q)" and "Query_str q = Inr (s, ps)"
  obtains out3 out4 out5 out7 out8 where
    "fst out3 = select_clause q @ into_clause q @ from_clause q"
    and "serialize_joins (query_indent q) (q_joins q) out3 = Inr out4"
    and "serialize_conditions (query_indent q) ''WHERE'' (q_where q) out4 = Inr out5"
    and "serialize_conditions (query_indent q) ''HAVING'' (q_having q)
           (fst out5 @ group_clause q, snd out5) = Inr out7"
    and "serialize_unions (query_indent q) (q_unions q) out7 = Inr out8"
    and "s = str_join [CHR 0x0A] (fst out8 @ order_clause q)"
    and "ps = snd out8"
proof -
  define n where "n = query_indent q"
  define out2 :: emitted
    where "out2 = append_if (nonempty (q_into q)) (align n ''INTO'' (the (q_into q)))
                    ([align n (select_keywords q) (str_join '', '' (q_columns q))], [])"
  from assms obtain out3 out4 out5 out7 out8 where
    frm: "(case q_table q of
             Virtual t \<Rightarrow>
               if \<not> nonempty (q_alias t) then Inl VirtualTableWithoutAlias
               else (case Query_str t of
                       Inl e \<Rightarrow> Inl e
                     | Inr (sql, parms) \<Rightarrow>
                         if parms \<noteq> [] then Inl PlaceholdersInVirtualTable
                         else Inr (fst out2 @ [align n ''FROM'' ''('',
                                               indent (sql @ '') '' @ the (q_alias t))],
                                   snd out2))
           | Named t \<Rightarrow> Inr (fst out2 @ [align n ''FROM'' t], snd out2)) = Inr out3"
    and jns: "serialize_joins n (q_joins q) out3 = Inr out4"
    and whr: "serialize_conditions n ''WHERE'' (q_where q) out4 = Inr out5"
    and hav: "serialize_conditions n ''HAVING'' (q_having q)
                (append_if (q_group q \<noteq> [])
                   (align n ''GROUP BY'' (str_join '', '' (q_group q))) out5) = Inr out7"
    and uni: "serialize_unions n (q_unions q) out7 = Inr out8"
    and s: "s = str_join [CHR 0x0A]
                  (fst (append_if (q_order q \<noteq> [])
                          (align n ''ORDER BY'' (str_join '', '' (q_order q))) out8))"
    and ps: "ps = snd (append_if (q_order q \<noteq> [])
                          (align n ''ORDER BY'' (str_join '', '' (q_order q))) out8)"
    unfolding Query_str.simps [of q] n_def out2_def
    by (simp add: Let_def split: sum.splits)
  have "fst out3 = fst out2 @ from_clause q"
    using frm unfolding from_clause_def rendered_def n_def
    by (auto split: table_ref.splits sum.splits if_splits)
  then have 1: "fst out3 = select_clause q @ into_clause q @ from_clause q"
    by (simp add: out2_def n_def append_if_lines select_clause_def into_clause_def)
  have 2: "append_if (q_group q \<noteq> []) (align n ''GROUP BY'' (str_join '', '' (q_group q))) out5
             = (fst out5 @ group_clause q, snd out5)"
    by (simp add: append_if_def group_clause_def n_def)
  show thesis
    using that [OF 1 jns [unfolded n_def] whr [unfolded n_def] hav [unfolded 2, unfolded n_def]
                   uni [unfolded n_def]] s ps
    by (simp add: append_if_lines order_clause_def n_def)
qed

lemma Query_str_fresh:
  assumes "\<not> nonempty (q_str q)" and "Query_str q = Inr (s, ps)"
  shows "s = str_join [CHR 0x0A] (clauses_in_order q)"
proof -
  from assms obtain out3 out4 out5 out7 out8 where
    frm: "fst out3 = select_clause q @ into_clause q @ from_clause q"
    and jns: "serialize_joins (query_indent q) (q_joins q) out3 = Inr out4"
    and whr: "serialize_conditions (query_indent q) ''WHERE'' (q_where q) out4 = Inr out5"
    and hav: "serialize_conditions (query_indent q) ''HAVING'' (q_having q)
                (fst out5 @ group_clause q, snd out5) = Inr out7"
    and uni: "serialize_unions (query_indent q) (q_unions q) out7 = Inr out8"
    and s: "s = str_join [CHR 0x0A] (fst out8 @ order_clause q)"
    by (rule Query_str_stages)
  from frm serialize_joins_lines [OF jns] serialize_conditions_lines [OF whr]
    serialize_conditions_lines [OF hav] serialize_unions_lines [OF uni] s
  show ?thesis
    by (simp add: clauses_in_order_def join_clauses_def union_clauses_def)
qed

subsection \<open>The methods of a query object\<close>

text \<open>
  A method that changes the object returns the object as it is afterwards. What is left of
  \<^verbatim>\<open>_parms\<close> when a rendering raises is not modelled: a method that raises returns the
  exception alone. A rendering also fills the cache of every nested query it renders; this
  is not recorded, since rendering the nested query again gives the string and the
  parameters its cache would hold.
\<close>

fun set_rendered :: "string \<Rightarrow> pyval list \<Rightarrow> query \<Rightarrow> query" where
  \<comment> \<open>the object after \<^verbatim>\<open>self._str = s\<close> and \<^verbatim>\<open>self._parms = ps\<close>\<close>
  "set_rendered s ps (Query table columns joins wh grp hav ord parms unions al into lim uniq cached outer) =
     Query table columns joins wh grp hav ord ps unions al into lim uniq (Some s) outer"

definition Query_render :: "query \<Rightarrow> error + (string \<times> query)" where
  \<comment> \<open>\<^verbatim>\<open>str(q)\<close> as a method call: the string, and the object with its cache filled\<close>
  "Query_render q =
     (case Query_str q of
        Inl e \<Rightarrow> Inl e
      | Inr (s, ps) \<Rightarrow> Inr (s, set_rendered s ps q))"

definition Query_parms :: "query \<Rightarrow> error + (pyval list \<times> query)" where
  \<comment> \<open>\<^verbatim>\<open>Query.parms\<close>\<close>
  "Query_parms q =
     (if q_str q = None then
        (case Query_render q of
           Inl e \<Rightarrow> Inl e
         | Inr (s, q') \<Rightarrow> Inr (q_parms q', q'))
      else Inr (q_parms q, q))"

type_synonym cursor = "(string \<times> pyval list) list"

definition execute :: "cursor \<Rightarrow> query \<Rightarrow> error + (cursor \<times> query)" where
  \<comment> \<open>\<^verbatim>\<open>Query.execute\<close> on a given cursor, which is the list of the statements it has been
      sent with their parameters\<close>
  "execute cur q =
     (case Query_render q of
        Inl e \<Rightarrow> Inl e
      | Inr (sql, q') \<Rightarrow> Inr (cur @ [(sql, q_parms q')], q'))"

fun Query_where :: "cond \<Rightarrow> query \<Rightarrow> query" where
  \<comment> \<open>\<^verbatim>\<open>Query.where\<close>\<close>
  "Query_where c (Query table columns joins wh grp hav ord parms unions al into lim uniq cached outer) =
     Query table columns joins (wh @ [c]) grp hav ord parms unions al into lim uniq None outer"

definition Condition_init :: "string \<Rightarrow> cvalue \<Rightarrow> string \<Rightarrow> error + cond" where
  \<comment> \<open>\<^verbatim>\<open>Query.Condition.__init__\<close> stores its three arguments.\<close>
  "Condition_init col val test = Inr (Condition col val test)"

definition Query_init :: "table_ref \<Rightarrow> string list \<Rightarrow> query" where
  \<comment> \<open>\<^verbatim>\<open>Query.__init__\<close>\<close>
  "Query_init table columns =
     Query table columns [] [] [] [] [] [] [] None None None False None False"

definition example_union :: query where
  "example_union = Query_where (Sql ''i < 43'') (Query_init (Named ''t1'') [''n'', ''1''])"

definition example_query :: query where
  "example_query =
     Query (Named ''t1 a'') [''a.n'', ''COUNT(*)'']
       [Join (Named ''t2 b'') True [Sql ''b.i = a.i'']]
       [Condition ''b.n'' (Many [PStr ''x'', PStr ''y'']) ''IN'', Sql ''a.i > 1'']
       [''a.n''] [Sql ''COUNT(*) > 2''] [''a.n DESC''] [] [example_union]
       None (Some ''#t3'') (Some 5) True None True"

text \<open>
  C4. A query that has no cached string and renders without an exception is rendered as
  its clauses joined by newlines in the fixed order: the \<open>SELECT\<close> line, \<open>INTO\<close>, \<open>FROM\<close>,
  the joins in the order they were added, the conditions of \<open>WHERE\<close> (the first under
  \<open>WHERE\<close>, the others under \<open>AND\<close>), \<open>GROUP BY\<close>, the conditions of \<open>HAVING\<close>, the
  \<open>UNION\<close> blocks, and \<open>ORDER BY\<close>.
\<close>

theorem Query_str_lists_clauses_in_fixed_order:
  assumes "\<not> nonempty (q_str q)" and "Query_str q = Inr (s, ps)"
  shows "s = str_join [CHR 0x0A]
               (select_clause q @ into_clause q @ from_clause q @ join_clauses q
                  @ condition_clauses (query_indent q) ''WHERE'' (q_where q)
                  @ group_clause q
                  @ condition_clauses (query_indent q) ''HAVING'' (q_having q)
                  @ union_clauses q @ order_clause q)"
  using Query_str_fresh [OF assms] by (simp add: clauses_in_order_def)

lemma example_query_str:
  "Query_str example_query =
     Inr (''SELECT DISTINCT TOP 5 a.n, COUNT(*)\<newline>                 INTO #t3\<newline>                 FROM t1 a\<newline>      LEFT OUTER JOIN t2 b\<newline>                   ON b.i = a.i\<newline>                WHERE b.n IN (%s, %s)\<newline>                  AND a.i > 1\<newline>             GROUP BY a.n\<newline>               HAVING COUNT(*) > 2\<newline>                UNION \<newline>SELECT n, 1\<newline>  FROM t1\<newline> WHERE i < 43\<newline>             ORDER BY a.n DESC'',
          [PStr ''x'', PStr ''y''])"
  by code_simp

theorem Query_str_lists_clauses_in_fixed_order_witness:
  "\<not> nonempty (q_str example_query)
   \<and> select_clause example_query = [''SELECT DISTINCT TOP 5 a.n, COUNT(*)'']
   \<and> into_clause example_query = [''                 INTO #t3'']
   \<and> from_clause example_query = [''                 FROM t1 a'']
   \<and> join_clauses example_query =
        [''      LEFT OUTER JOIN t2 b'', ''                   ON b.i = a.i'']
   \<and> condition_clauses (query_indent example_query) ''WHERE'' (q_where example_query) =
        [''                WHERE b.n IN (%s, %s)'', ''                  AND a.i > 1'']
   \<and> group_clause example_query = [''             GROUP BY a.n'']
   \<and> condition_clauses (query_indent example_query) ''HAVING'' (q_having example_query) =
        [''               HAVING COUNT(*) > 2'']
   \<and> union_clauses example_query =
        [''                UNION '', ''SELECT n, 1\<newline>  FROM t1\<newline> WHERE i < 43'']
   \<and> order_clause example_query = [''             ORDER BY a.n DESC'']
   \<and> Query_str example_query =
        Inr (''SELECT DISTINCT TOP 5 a.n, COUNT(*)\<newline>                 INTO #t3\<newline>                 FROM t1 a\<newline>      LEFT OUTER JOIN t2 b\<newline>                   ON b.i = a.i\<newline>                WHERE b.n IN (%s, %s)\<newline>                  AND a.i > 1\<newline>             GROUP BY a.n\<newline>               HAVING COUNT(*) > 2\<newline>                UNION \<newline>SELECT n, 1\<newline>  FROM t1\<newline> WHERE i < 43\<newline>             ORDER BY a.n DESC'',
             [PStr ''x'', PStr ''y''])"
proof -
  have fresh: "\<not> nonempty (q_str example_query)"
    by (simp add: example_query_def nonempty_def)
  have clauses:
    "select_clause example_query = [''SELECT DISTINCT TOP 5 a.n, COUNT(*)'']"
    "into_clause example_query = [''                 INTO #t3'']"
    "from_clause example_query = [''                 FROM t1 a'']"
    "join_clauses example_query =
        [''      LEFT OUTER JOIN t2 b'', ''                   ON b.i = a.i'']"
    "condition_clauses (query_indent example_query) ''WHERE'' (q_where example_query) =
        [''                WHERE b.n IN (%s, %s)'', ''                  AND a.i > 1'']"
    "group_clause example_query = [''             GROUP BY a.n'']"
    "condition_clauses (query_indent example_query) ''HAVING'' (q_having example_query) =
        [''               HAVING COUNT(*) > 2'']"
    "union_clauses example_query =
        [''                UNION '', ''SELECT n, 1\<newline>  FROM t1\<newline> WHERE i < 43'']"
    "order_clause example_query = [''             ORDER BY a.n DESC'']"
    by code_simp+
  from Query_str_lists_clauses_in_fixed_order [OF fresh example_query_str]
  show ?thesis
    using fresh clauses example_query_str by simp
qed

lemma str_join_nonempty: "x \<noteq> [] \<Longrightarrow> str_join sep (x # xs) \<noteq> []"
  by (cases xs) simp_all

lemma Query_str_nonempty:
  assumes "Query_str q = Inr (s, ps)"
  shows "s \<noteq> []"
proof (cases "nonempty (q_str q)")
  case True
  with assms show ?thesis
    by (auto simp: Query_str.simps [of q] nonempty_def split: option.splits)
next
  case False
  have "align n k r \<noteq> []" for n k r
    by (simp add: align_def Let_def)
  then show ?thesis
    using Query_str_fresh [OF False assms]
    by (simp add: clauses_in_order_def select_clause_def str_join_nonempty)
qed

lemma q_str_set_rendered [simp]:
  "q_str (set_rendered s ps q) = Some s" "q_parms (set_rendered s ps q) = ps"
  "set_rendered s ps (set_rendered s' ps' q) = set_rendered s ps q"
  by (cases q; simp)+

text \<open>
  C5. When a query has been rendered, rendering it again returns the same string and
  leaves the object, and with it the parameter list, as it is; \<open>parms()\<close> returns that
  parameter list without rendering.
\<close>

theorem rendering_twice_is_identical:
  assumes "Query_render q = Inr (s, q1)"
  shows "Query_render q1 = Inr (s, q1)
         \<and> Query_parms q1 = Inr (q_parms q1, q1)
         \<and> (\<exists>ps. Query_str q = Inr (s, ps) \<and> q_parms q1 = ps)"
proof -
  from assms obtain ps where first: "Query_str q = Inr (s, ps)" and q1: "q1 = set_rendered s ps q"
    by (auto simp: Query_render_def split: sum.splits)
  have "s \<noteq> []"
    using first by (rule Query_str_nonempty)
  then have "Query_str q1 = Inr (s, ps)"
    unfolding q1 by (simp add: Query_str.simps [of "set_rendered s ps q"] nonempty_def)
  then show ?thesis
    using first by (simp add: Query_render_def Query_parms_def q1)
qed

theorem rendering_twice_is_identical_witness:
  "(\<exists>q1. Query_render example_query = Inr (rendered example_query, q1)
        \<and> Query_render q1 = Inr (rendered example_query, q1)
        \<and> Query_parms q1 = Inr ([PStr ''x'', PStr ''y''], q1))"
proof -
  define q1 where "q1 = set_rendered (rendered example_query) [PStr ''x'', PStr ''y''] example_query"
  have first: "Query_render example_query = Inr (rendered example_query, q1)"
    by (simp add: Query_render_def rendered_def example_query_str q1_def)
  from rendering_twice_is_identical [OF first] have
    "Query_render q1 = Inr (rendered example_query, q1)"
    "Query_parms q1 = Inr ([PStr ''x'', PStr ''y''], q1)"
    by (simp_all add: q1_def)
  with first show ?thesis by blast
qed

lemma empty_IN_fails:
  "upper test = ''IN'' \<or> upper test = ''NOT IN'' \<Longrightarrow>
     serialize_condition n keyword (Condition col (Many []) test) prefix suffix out
       = Inl EmptyInList"
  by (simp add: Let_def)

lemma serialize_conditions_snoc_fails:
  assumes "\<And>keyword out. serialize_condition n keyword c [] [] out = Inl e"
  shows "\<exists>e'. serialize_conditions n keyword (cs @ [c]) out = Inl e'"
proof (induction cs arbitrary: keyword out)
  case Nil
  show ?case by (simp add: assms)
next
  case (Cons a cs)
  show ?case
    using Cons.IH by (cases "serialize_condition n keyword a [] [] out") simp_all
qed

lemma Query_where_fields [simp]:
  "q_str (Query_where c q) = None" "q_where (Query_where c q) = q_where q @ [c]"
  by (cases q; simp)+

text \<open>
  C7. The claim is that a condition with test \<open>IN\<close> or \<open>NOT IN\<close> and an empty sequence of
  values fails when it is constructed. The constructor stores its arguments and
  \<open>where()\<close> appends the condition: both return normally, and the failure is raised only when
  the query is rendered.
\<close>

theorem empty_IN_is_accepted_at_construction:
  "Condition_init ''i'' (Many []) ''IN'' = Inr (Condition ''i'' (Many []) ''IN'')
   \<and> Condition_init ''i'' (Many []) ''IN'' \<noteq> Inl EmptyInList
   \<and> Query_render (Query_where (Condition ''i'' (Many []) ''IN'')
                      (Query_init (Named ''t'') [''n''])) = Inl EmptyInList"
  by (simp add: Condition_init_def Query_init_def Query_render_def Query_str.simps
      upper_def upper_char_def Let_def nonempty_def append_if_def)

text \<open>
  C7, as amended. Constructing a condition with test \<open>IN\<close> or \<open>NOT IN\<close> (in any letter
  case) and an empty sequence of values succeeds, and so does adding it to a query with
  \<open>where()\<close>. Rendering that query fails, and \<open>execute()\<close> fails in the same way before
  anything is sent to the cursor.
\<close>

theorem empty_IN_fails_when_rendered:
  assumes "upper test = ''IN'' \<or> upper test = ''NOT IN''"
  shows "Condition_init col (Many []) test = Inr (Condition col (Many []) test)
         \<and> (\<exists>e. Query_render (Query_where (Condition col (Many []) test) q) = Inl e
                \<and> execute cur (Query_where (Condition col (Many []) test) q) = Inl e)"
proof -
  let ?q = "Query_where (Condition col (Many []) test) q"
  have fails: "\<exists>e. serialize_conditions n ''WHERE''
                     (q_where q @ [Condition col (Many []) test]) out = Inl e" for n out
    by (rule serialize_conditions_snoc_fails) (rule empty_IN_fails [OF assms])
  have "Query_str ?q \<noteq> Inr (s, ps)" for s ps
  proof
    assume r: "Query_str ?q = Inr (s, ps)"
    have fresh: "\<not> nonempty (q_str ?q)"
      by (simp add: nonempty_def)
    from fresh r obtain out4 out5 where
      "serialize_conditions (query_indent ?q) ''WHERE'' (q_where ?q) out4 = Inr out5"
      by (rule Query_str_stages)
    then show False
      using fails [of "query_indent ?q" out4] by simp
  qed
  then have "\<exists>e. Query_str ?q = Inl e"
    by (cases "Query_str ?q") auto
  then show ?thesis
    by (auto simp: Condition_init_def Query_render_def execute_def)
qed

theorem empty_IN_fails_when_rendered_witness:
  "upper ''not in'' = ''NOT IN''
   \<and> Condition_init ''i'' (Many []) ''not in'' = Inr (Condition ''i'' (Many []) ''not in'')
   \<and> execute [] (Query_where (Condition ''i'' (Many []) ''not in'')
                    (Query_init (Named ''t'') [''n''])) = Inl EmptyInList"
proof -
  have up: "upper ''not in'' = ''NOT IN''"
    by code_simp
  have run: "execute [] (Query_where (Condition ''i'' (Many []) ''not in'')
                    (Query_init (Named ''t'') [''n''])) = Inl EmptyInList"
    by (simp add: Query_init_def execute_def Query_render_def Query_str.simps up
        Let_def nonempty_def append_if_def)
  from empty_IN_fails_when_rendered [of "''not in''" "''i''" "Query_init (Named ''t'') [''n'']" "[]"]
  show ?thesis
    using up run by simp
qed

end
